theory Spec2Isabelle
  imports Main "HOL-Library.Word" "HOL-Library.Signed_Division"
begin

unbundle bit_operations_syntax

section \<open>Machine types\<close>

text \<open>
  The driver works on \<open>int16_t\<close> coordinates, \<open>uint8_t\<close> buffer bytes and command
  bytes, and a \<open>uint16_t\<close> colour. Arithmetic on them is done in C's \<open>int\<close>
  (32 bits on the target) after integer promotion: \<open>sint\<close> reads an \<open>int16_t\<close>,
  \<open>uint\<close> a \<open>uint8_t\<close>, and \<open>word_of_int\<close> is the narrowing store back into the
  variable. C's \<open>/\<close> truncates towards zero, which is \<open>sdiv\<close>.
\<close>

type_synonym int16_t = "16 word"
type_synonym uint16_t = "16 word"
type_synonym uint8_t = "8 word"

section \<open>Constants of the header\<close>

text \<open>
  Modelled from the spec: the header Adafruit_SSD1306.h, which declares the colour
  and command constants, is not among the sources. The colours are the three modes SET,
  CLEAR and INVERT of the spec; the comment of \<open>invertDisplay\<close> in the source gives
  \<open>SSD1306_BLACK\<close> the value 0 and \<open>SSD1306_WHITE\<close> the value 1, and
  \<open>SSD1306_INVERSE\<close> is the third, distinct value. The command bytes are the
  controller's opcodes; the comments of \<open>begin\<close> give several of them. The two stream
  selectors are the one-byte prefixes of the spec's command stream and data stream.
\<close>

definition SSD1306_BLACK :: uint16_t where "SSD1306_BLACK = 0"
definition SSD1306_WHITE :: uint16_t where "SSD1306_WHITE = 1"
definition SSD1306_INVERSE :: uint16_t where "SSD1306_INVERSE = 2"

definition SSD1306_CMD_STREAM :: uint8_t where "SSD1306_CMD_STREAM = 0x00"
definition SSD1306_DATA_STREAM :: uint8_t where "SSD1306_DATA_STREAM = 0x40"

definition SSD1306_MEMORYMODE :: uint8_t where "SSD1306_MEMORYMODE = 0x20"
definition SSD1306_COLUMNADDR :: uint8_t where "SSD1306_COLUMNADDR = 0x21"
definition SSD1306_PAGEADDR :: uint8_t where "SSD1306_PAGEADDR = 0x22"
definition SSD1306_SETCONTRAST :: uint8_t where "SSD1306_SETCONTRAST = 0x81"
definition SSD1306_CHARGEPUMP :: uint8_t where "SSD1306_CHARGEPUMP = 0x8D"
definition SSD1306_SEGREMAP :: uint8_t where "SSD1306_SEGREMAP = 0xA0"
definition SSD1306_DISPLAYALLON_RESUME :: uint8_t where "SSD1306_DISPLAYALLON_RESUME = 0xA4"
definition SSD1306_NORMALDISPLAY :: uint8_t where "SSD1306_NORMALDISPLAY = 0xA6"
definition SSD1306_INVERTDISPLAY :: uint8_t where "SSD1306_INVERTDISPLAY = 0xA7"
definition SSD1306_SETMULTIPLEX :: uint8_t where "SSD1306_SETMULTIPLEX = 0xA8"
definition SSD1306_DISPLAYOFF :: uint8_t where "SSD1306_DISPLAYOFF = 0xAE"
definition SSD1306_DISPLAYON :: uint8_t where "SSD1306_DISPLAYON = 0xAF"
definition SSD1306_COMSCANDEC :: uint8_t where "SSD1306_COMSCANDEC = 0xC8"
definition SSD1306_SETDISPLAYOFFSET :: uint8_t where "SSD1306_SETDISPLAYOFFSET = 0xD3"
definition SSD1306_SETDISPLAYCLOCKDIV :: uint8_t where "SSD1306_SETDISPLAYCLOCKDIV = 0xD5"
definition SSD1306_SETPRECHARGE :: uint8_t where "SSD1306_SETPRECHARGE = 0xD9"
definition SSD1306_SETCOMPINS :: uint8_t where "SSD1306_SETCOMPINS = 0xDA"
definition SSD1306_SETVCOMDETECT :: uint8_t where "SSD1306_SETVCOMDETECT = 0xDB"
definition SSD1306_SETSTARTLINE :: uint8_t where "SSD1306_SETSTARTLINE = 0x40"
definition SSD1306_RIGHT_HORIZONTAL_SCROLL :: uint8_t where
  "SSD1306_RIGHT_HORIZONTAL_SCROLL = 0x26"
definition SSD1306_LEFT_HORIZONTAL_SCROLL :: uint8_t where
  "SSD1306_LEFT_HORIZONTAL_SCROLL = 0x27"
definition SSD1306_VERTICAL_AND_RIGHT_HORIZONTAL_SCROLL :: uint8_t where
  "SSD1306_VERTICAL_AND_RIGHT_HORIZONTAL_SCROLL = 0x29"
definition SSD1306_VERTICAL_AND_LEFT_HORIZONTAL_SCROLL :: uint8_t where
  "SSD1306_VERTICAL_AND_LEFT_HORIZONTAL_SCROLL = 0x2A"
definition SSD1306_DEACTIVATE_SCROLL :: uint8_t where "SSD1306_DEACTIVATE_SCROLL = 0x2E"
definition SSD1306_ACTIVATE_SCROLL :: uint8_t where "SSD1306_ACTIVATE_SCROLL = 0x2F"
definition SSD1306_SET_VERTICAL_SCROLL_AREA :: uint8_t where
  "SSD1306_SET_VERTICAL_SCROLL_AREA = 0xA3"

section \<open>The driver object\<close>

text \<open>
  The fields of the object: the native panel size \<open>WIDTH\<close>, \<open>HEIGHT\<close> and the
  \<open>rotation\<close> of the graphics base class, the pixel \<open>buffer\<close> (\<open>None\<close> is the
  null pointer, \<open>Some b\<close> an allocated block of \<open>length b\<close> bytes), the stored
  \<open>contrast\<close> and the I2C port \<open>i2c\<close>.

  Two fields stand for the I2C driver the object talks to. \<open>bus\<close> is the log of the
  transactions handed to \<open>i2c_master_cmd_begin\<close>, oldest first; a transaction is the
  list of bytes written to its command link after the address byte
  \<open>(SSD1306_I2C_ADDRESS << 1) | I2C_MASTER_WRITE\<close>, which opens every transaction of
  this driver alike: the stream selector, then the payload. \<open>links\<close> tells for the
  coming calls of \<open>i2c_cmd_link_create\<close>, in order, whether they return a link
  (\<open>True\<close>) or \<open>NULL\<close>.
\<close>

record ssd1306 =
  WIDTH :: int16_t
  HEIGHT :: int16_t
  rotation :: uint8_t
  buffer :: "uint8_t list option"
  contrast :: uint8_t
  i2c :: nat
  bus :: "uint8_t list list"
  links :: "nat \<Rightarrow> bool"

text \<open>
  What the source does on a null or out-of-range pointer is undefined behaviour; the
  model returns a fault there.
\<close>

datatype fault = NullBuffer | OutOfRange | NullLink

text \<open>
  The constructor: \<open>Adafruit_GFX(w, h)\<close> stores the two \<open>uint8_t\<close> arguments as
  the native size, the buffer pointer is null, and \<open>contrast\<close> is left uninitialised
  (\<open>junk\<close> is the byte it happens to hold).
\<close>

definition Adafruit_SSD1306 :: "uint8_t \<Rightarrow> uint8_t \<Rightarrow> nat \<Rightarrow> uint8_t \<Rightarrow> (nat \<Rightarrow> bool) \<Rightarrow> ssd1306" where
  "Adafruit_SSD1306 w h port junk env =
     \<lparr>WIDTH = ucast w, HEIGHT = ucast h, rotation = 0, buffer = None,
      contrast = junk, i2c = port, bus = [], links = env\<rparr>"

text \<open>
  Modelled from the spec: the accessors \<open>getRotation\<close>, \<open>width\<close> and \<open>height\<close>
  belong to the graphics base class Adafruit_GFX, which is not among the sources. The
  rotation is one of four states; the logical \<open>width()\<close> and \<open>height()\<close> swap the
  native dimensions for rotations 1 and 3.
\<close>

definition getRotation :: "ssd1306 \<Rightarrow> uint8_t" where
  "getRotation d = rotation d"

definition width :: "ssd1306 \<Rightarrow> int16_t" where
  "width d = (if rotation d = 1 \<or> rotation d = 3 then HEIGHT d else WIDTH d)"

definition height :: "ssd1306 \<Rightarrow> int16_t" where
  "height d = (if rotation d = 1 \<or> rotation d = 3 then WIDTH d else HEIGHT d)"

section \<open>Drawing functions\<close>

text \<open>The macro \<open>ssd1306_swap(a, b)\<close>: three exclusive-or assignments.\<close>

definition ssd1306_swap :: "int16_t \<Rightarrow> int16_t \<Rightarrow> int16_t \<times> int16_t" where
  "ssd1306_swap a b =
     (let a1 = a XOR b;
          b1 = b XOR a1;
          a2 = a1 XOR b1
      in (a2, b1))"

text \<open>The test \<open>(x >= 0) && (x < width()) && (y >= 0) && (y < height())\<close>.\<close>

definition in_bounds :: "ssd1306 \<Rightarrow> int16_t \<Rightarrow> int16_t \<Rightarrow> bool" where
  "in_bounds d x y \<longleftrightarrow>
     0 \<le> sint x \<and> sint x < sint (width d) \<and> 0 \<le> sint y \<and> sint y < sint (height d)"

text \<open>
  The \<open>switch (getRotation())\<close> of \<open>drawPixel\<close> and \<open>getPixel\<close> (the same text in
  both): it returns the new values of the variables \<open>x\<close> and \<open>y\<close>.
\<close>

definition rotate_coords :: "ssd1306 \<Rightarrow> int16_t \<Rightarrow> int16_t \<Rightarrow> int16_t \<times> int16_t" where
  "rotate_coords d x y =
     (if getRotation d = 1 then
        (let (x, y) = ssd1306_swap x y
         in (word_of_int (sint (WIDTH d) - sint x - 1), y))
      else if getRotation d = 2 then
        (word_of_int (sint (WIDTH d) - sint x - 1),
         word_of_int (sint (HEIGHT d) - sint y - 1))
      else if getRotation d = 3 then
        (let (x, y) = ssd1306_swap x y
         in (x, word_of_int (sint (HEIGHT d) - sint y - 1)))
      else (x, y))"

text \<open>The index expression \<open>x + (y / 8) * WIDTH\<close> and the mask \<open>1 << (y & 7)\<close>.\<close>

definition byte_index :: "ssd1306 \<Rightarrow> int16_t \<Rightarrow> int16_t \<Rightarrow> int" where
  "byte_index d x y = sint x + (sint y sdiv 8) * sint (WIDTH d)"

definition bit_pos :: "int16_t \<Rightarrow> nat" where
  "bit_pos y = nat (sint y AND 7)"

definition bit_mask :: "int16_t \<Rightarrow> int" where
  "bit_mask y = push_bit (bit_pos y) 1"

text \<open>Reading and updating \<open>buffer[i]\<close>.\<close>

definition buffer_read :: "int \<Rightarrow> ssd1306 \<Rightarrow> fault + uint8_t" where
  "buffer_read i d =
     (case buffer d of
        None \<Rightarrow> Inl NullBuffer
      | Some b \<Rightarrow> if 0 \<le> i \<and> i < int (length b) then Inr (b ! nat i) else Inl OutOfRange)"

definition buffer_modify :: "(uint8_t \<Rightarrow> uint8_t) \<Rightarrow> int \<Rightarrow> ssd1306 \<Rightarrow> fault + ssd1306" where
  "buffer_modify f i d =
     (case buffer d of
        None \<Rightarrow> Inl NullBuffer
      | Some b \<Rightarrow>
          if 0 \<le> i \<and> i < int (length b)
          then Inr (d\<lparr>buffer := Some (b[nat i := f (b ! nat i)])\<rparr>)
          else Inl OutOfRange)"

definition drawPixel :: "int16_t \<Rightarrow> int16_t \<Rightarrow> uint16_t \<Rightarrow> ssd1306 \<Rightarrow> fault + ssd1306" where
  "drawPixel x y color d =
     (if in_bounds d x y then
        (let (x, y) = rotate_coords d x y in
         if color = SSD1306_WHITE then
           buffer_modify (\<lambda>b. word_of_int (uint b OR bit_mask y)) (byte_index d x y) d
         else if color = SSD1306_BLACK then
           buffer_modify (\<lambda>b. word_of_int (uint b AND NOT (bit_mask y))) (byte_index d x y) d
         else if color = SSD1306_INVERSE then
           buffer_modify (\<lambda>b. word_of_int (uint b XOR bit_mask y)) (byte_index d x y) d
         else Inr d)
      else Inr d)"

text \<open>
  \<open>clearDisplay\<close> is \<open>memset(buffer, 0, WIDTH * ((HEIGHT + 7) / 8))\<close>; a negative
  product would be a huge \<open>size_t\<close>.
\<close>

definition buffer_size :: "ssd1306 \<Rightarrow> int" where
  "buffer_size d = sint (WIDTH d) * ((sint (HEIGHT d) + 7) sdiv 8)"

definition clearDisplay :: "ssd1306 \<Rightarrow> fault + ssd1306" where
  "clearDisplay d =
     (case buffer d of
        None \<Rightarrow> Inl NullBuffer
      | Some b \<Rightarrow>
          if 0 \<le> buffer_size d \<and> buffer_size d \<le> int (length b)
          then Inr (d\<lparr>buffer := Some (replicate (nat (buffer_size d)) 0 @
                                       drop (nat (buffer_size d)) b)\<rparr>)
          else Inl OutOfRange)"

definition getPixel :: "int16_t \<Rightarrow> int16_t \<Rightarrow> ssd1306 \<Rightarrow> fault + bool" where
  "getPixel x y d =
     (if in_bounds d x y then
        (let (x, y) = rotate_coords d x y in
         case buffer_read (byte_index d x y) d of
           Inl e \<Rightarrow> Inl e
         | Inr b \<Rightarrow> Inr (uint b AND bit_mask y \<noteq> 0))
      else Inr False)"

section \<open>Bus transactions\<close>

text \<open>
  \<open>i2c_cmd_link_create\<close> of the I2C driver: the next answer of \<open>links\<close> is
  consumed; the result tells whether the handle is not \<open>NULL\<close>.
\<close>

definition i2c_cmd_link_create :: "ssd1306 \<Rightarrow> bool \<times> ssd1306" where
  "i2c_cmd_link_create d = (links d 0, d\<lparr>links := \<lambda>n. links d (Suc n)\<rparr>)"

text \<open>
  \<open>i2c_master_cmd_begin\<close> on a link that was started, addressed, filled with
  \<open>bytes\<close> and stopped: the transaction is appended to the log.
\<close>

definition i2c_master_cmd_begin :: "uint8_t list \<Rightarrow> ssd1306 \<Rightarrow> ssd1306" where
  "i2c_master_cmd_begin bytes d = d\<lparr>bus := bus d @ [bytes]\<rparr>"

definition ssd1306_command1 :: "uint8_t \<Rightarrow> ssd1306 \<Rightarrow> ssd1306" where
  "ssd1306_command1 c d =
     (case i2c_cmd_link_create d of
        (cmd, d) \<Rightarrow>
          if cmd then i2c_master_cmd_begin [SSD1306_CMD_STREAM, c] d else d)"

text \<open>
  \<open>ssd1306_commandList(c, n)\<close>: every call in the source passes an array and its
  \<open>sizeof\<close>, so the model takes the array as a list; the loop \<open>while (n--)\<close>
  writes its bytes in order.
\<close>

definition ssd1306_commandList :: "uint8_t list \<Rightarrow> ssd1306 \<Rightarrow> ssd1306" where
  "ssd1306_commandList c d =
     (case i2c_cmd_link_create d of
        (cmd, d) \<Rightarrow>
          if cmd then i2c_master_cmd_begin (SSD1306_CMD_STREAM # c) d else d)"

definition ssd1306_command :: "uint8_t \<Rightarrow> ssd1306 \<Rightarrow> ssd1306" where
  "ssd1306_command c d = ssd1306_command1 c d"

section \<open>Refreshing the display\<close>

text \<open>
  The loop \<open>while (count--) i2c_master_write_byte(cmd, *ptr++, true)\<close> of
  \<open>display\<close>: \<open>p\<close> is the offset of \<open>ptr\<close> in the buffer and \<open>cmd\<close> the
  bytes written to the link so far.
\<close>

fun write_buffer :: "nat \<Rightarrow> uint8_t list option \<Rightarrow> nat \<Rightarrow> uint8_t list \<Rightarrow> fault + uint8_t list" where
  "write_buffer 0 buf p cmd = Inr cmd"
| "write_buffer (Suc count) buf p cmd =
     (case buf of
        None \<Rightarrow> Inl NullBuffer
      | Some b \<Rightarrow>
          if p < length b then write_buffer count buf (Suc p) (cmd @ [b ! p])
          else Inl OutOfRange)"

text \<open>
  \<open>display\<close> does not test the link it creates for the data: with a null handle the
  calls into the I2C driver are outside this code, and the model returns a fault.
  The column end \<open>WIDTH - 1\<close> is narrowed to the \<open>uint8_t\<close> parameter, the byte
  count to \<open>uint16_t\<close>.
\<close>

definition dlist1 :: "uint8_t list" where
  "dlist1 = [SSD1306_PAGEADDR, 0, 0xFF, SSD1306_COLUMNADDR, 0]"

definition display :: "ssd1306 \<Rightarrow> fault + ssd1306" where
  "display d =
     (let d = ssd1306_commandList dlist1 d;
          d = ssd1306_command1 (word_of_int (sint (WIDTH d) - 1)) d;
          count = (word_of_int (buffer_size d) :: uint16_t)
      in case i2c_cmd_link_create d of
           (cmd, d) \<Rightarrow>
             if \<not> cmd then Inl NullLink
             else case write_buffer (unat count) (buffer d) 0 [SSD1306_DATA_STREAM] of
                    Inl e \<Rightarrow> Inl e
                  | Inr bytes \<Rightarrow> Inr (i2c_master_cmd_begin bytes d))"

section \<open>Scrolling and other hardware settings\<close>

definition startscrollright :: "uint8_t \<Rightarrow> uint8_t \<Rightarrow> ssd1306 \<Rightarrow> ssd1306" where
  "startscrollright start stop d =
     (let d = ssd1306_commandList [SSD1306_RIGHT_HORIZONTAL_SCROLL, 0x00] d;
          d = ssd1306_command1 start d;
          d = ssd1306_command1 0x00 d;
          d = ssd1306_command1 stop d
      in ssd1306_commandList [0x00, 0xFF, SSD1306_ACTIVATE_SCROLL] d)"

definition startscrollleft :: "uint8_t \<Rightarrow> uint8_t \<Rightarrow> ssd1306 \<Rightarrow> ssd1306" where
  "startscrollleft start stop d =
     (let d = ssd1306_commandList [SSD1306_LEFT_HORIZONTAL_SCROLL, 0x00] d;
          d = ssd1306_command1 start d;
          d = ssd1306_command1 0x00 d;
          d = ssd1306_command1 stop d
      in ssd1306_commandList [0x00, 0xFF, SSD1306_ACTIVATE_SCROLL] d)"

definition startscrolldiagright :: "uint8_t \<Rightarrow> uint8_t \<Rightarrow> ssd1306 \<Rightarrow> ssd1306" where
  "startscrolldiagright start stop d =
     (let d = ssd1306_commandList [SSD1306_SET_VERTICAL_SCROLL_AREA, 0x00] d;
          d = ssd1306_command1 (ucast (HEIGHT d)) d;
          d = ssd1306_commandList [SSD1306_VERTICAL_AND_RIGHT_HORIZONTAL_SCROLL, 0x00] d;
          d = ssd1306_command1 start d;
          d = ssd1306_command1 0x00 d;
          d = ssd1306_command1 stop d
      in ssd1306_commandList [0x01, SSD1306_ACTIVATE_SCROLL] d)"

definition startscrolldiagleft :: "uint8_t \<Rightarrow> uint8_t \<Rightarrow> ssd1306 \<Rightarrow> ssd1306" where
  "startscrolldiagleft start stop d =
     (let d = ssd1306_commandList [SSD1306_SET_VERTICAL_SCROLL_AREA, 0x00] d;
          d = ssd1306_command1 (ucast (HEIGHT d)) d;
          d = ssd1306_commandList [SSD1306_VERTICAL_AND_LEFT_HORIZONTAL_SCROLL, 0x00] d;
          d = ssd1306_command1 start d;
          d = ssd1306_command1 0x00 d;
          d = ssd1306_command1 stop d
      in ssd1306_commandList [0x01, SSD1306_ACTIVATE_SCROLL] d)"

definition stopscroll :: "ssd1306 \<Rightarrow> ssd1306" where
  "stopscroll d = ssd1306_command1 SSD1306_DEACTIVATE_SCROLL d"

definition invertDisplay :: "bool \<Rightarrow> ssd1306 \<Rightarrow> ssd1306" where
  "invertDisplay i d =
     ssd1306_command1 (if i then SSD1306_INVERTDISPLAY else SSD1306_NORMALDISPLAY) d"

definition dim :: "bool \<Rightarrow> ssd1306 \<Rightarrow> ssd1306" where
  "dim dm d =
     (let d = ssd1306_command1 SSD1306_SETCONTRAST d
      in ssd1306_command1 (if dm then 0 else contrast d) d)"

section \<open>Allocation and initialisation\<close>

text \<open>
  Modelled from the spec: \<open>drawBitmap\<close> of Adafruit_GFX and the splash bitmaps of
  splash.h are not among the sources. The spec has the splash as a fixed bitmap that is
  blitted: every set pixel \<open>(i, j)\<close> of the \<open>w\<close> by \<open>h\<close> bitmap is drawn with
  \<open>drawPixel\<close> at \<open>(x + i, y + j)\<close> in the given colour, row by row. A bitmap is
  taken as its size and the function telling which of its pixels are set.
\<close>

record bitmap =
  bm_width :: int16_t
  bm_height :: int16_t
  bm_data :: "nat \<Rightarrow> nat \<Rightarrow> bool"

fun draw_pixels :: "(int16_t \<times> int16_t) list \<Rightarrow> uint16_t \<Rightarrow> ssd1306 \<Rightarrow> fault + ssd1306" where
  "draw_pixels [] color d = Inr d"
| "draw_pixels ((x, y) # ps) color d =
     (case drawPixel x y color d of
        Inl e \<Rightarrow> Inl e
      | Inr d \<Rightarrow> draw_pixels ps color d)"

definition drawBitmap ::
  "int16_t \<Rightarrow> int16_t \<Rightarrow> (nat \<Rightarrow> nat \<Rightarrow> bool) \<Rightarrow> int16_t \<Rightarrow> int16_t \<Rightarrow> uint16_t \<Rightarrow> ssd1306
     \<Rightarrow> fault + ssd1306" where
  "drawBitmap x y bm w h color d =
     draw_pixels
       (concat (map (\<lambda>j. map (\<lambda>i. (word_of_int (sint x + int i), word_of_int (sint y + int j)))
                            (filter (\<lambda>i. bm i j) [0..<nat (sint w)]))
                    [0..<nat (sint h)]))
       color d"

text \<open>
  \<open>malloc\<close>: \<open>heap_ok\<close> tells whether the allocator has the memory; the block it
  returns holds arbitrary bytes \<open>junk\<close>. A negative size is a huge \<open>size_t\<close>, which
  no allocator grants.
\<close>

definition malloc :: "bool \<Rightarrow> (nat \<Rightarrow> uint8_t) \<Rightarrow> int \<Rightarrow> uint8_t list option" where
  "malloc heap_ok junk n = (if heap_ok \<and> 0 \<le> n then Some (map junk [0..<nat n]) else None)"

text \<open>The part of \<open>begin\<close> from the comment \<open>Init sequence\<close> on.\<close>

definition init1 :: "uint8_t list" where
  "init1 = [SSD1306_DISPLAYOFF, SSD1306_SETDISPLAYCLOCKDIV, 0x80, SSD1306_SETMULTIPLEX]"

definition init2 :: "uint8_t list" where
  "init2 = [SSD1306_SETDISPLAYOFFSET, 0x0, SSD1306_SETSTARTLINE OR 0x0, SSD1306_CHARGEPUMP]"

definition init3 :: "uint8_t list" where
  "init3 = [SSD1306_MEMORYMODE, 0x00, SSD1306_SEGREMAP OR 0x1, SSD1306_COMSCANDEC]"

definition init5 :: "uint8_t list" where
  "init5 = [SSD1306_SETVCOMDETECT, 0x40, SSD1306_DISPLAYALLON_RESUME, SSD1306_NORMALDISPLAY,
            SSD1306_DEACTIVATE_SCROLL, SSD1306_DISPLAYON]"

definition init_sequence :: "ssd1306 \<Rightarrow> ssd1306" where
  "init_sequence d =
     (let d = ssd1306_commandList init1 d;
          d = ssd1306_command1 (word_of_int (sint (HEIGHT d) - 1)) d;
          d = ssd1306_commandList init2 d;
          d = ssd1306_command1 0x14 d;
          d = ssd1306_commandList init3 d;
          (comPins, d) = (0x02 :: uint8_t, d\<lparr>contrast := 0x8F\<rparr>);
          (comPins, d) =
            (if sint (WIDTH d) = 128 \<and> sint (HEIGHT d) = 32 then
               (0x02, d\<lparr>contrast := 0x8F\<rparr>)
             else if sint (WIDTH d) = 128 \<and> sint (HEIGHT d) = 64 then
               (0x12, d\<lparr>contrast := 0xCF\<rparr>)
             else if sint (WIDTH d) = 96 \<and> sint (HEIGHT d) = 16 then
               (0x2, d\<lparr>contrast := 0xAF\<rparr>)
             else (comPins, d));
          d = ssd1306_command1 SSD1306_SETCOMPINS d;
          d = ssd1306_command1 comPins d;
          d = ssd1306_command1 SSD1306_SETCONTRAST d;
          d = ssd1306_command1 (contrast d) d;
          d = ssd1306_command1 SSD1306_SETPRECHARGE d;
          d = ssd1306_command1 0xF1 d
      in ssd1306_commandList init5 d)"

text \<open>
  \<open>begin\<close> (named \<open>begin_ssd1306\<close> here, \<open>begin\<close> being a keyword), with the
  splash compiled in (\<open>SSD1306_NO_SPLASH\<close> not defined). The two splash bitmaps of
  the missing splash.h are parameters. The result is the returned \<open>bool\<close> and the
  object.
\<close>

definition begin_ssd1306 ::
  "bool \<Rightarrow> (nat \<Rightarrow> uint8_t) \<Rightarrow> bitmap \<Rightarrow> bitmap \<Rightarrow> ssd1306 \<Rightarrow> fault + (bool \<times> ssd1306)" where
  "begin_ssd1306 heap_ok junk splash1 splash2 d =
     (let d = (if buffer d = None
               then d\<lparr>buffer := malloc heap_ok junk (buffer_size d)\<rparr> else d)
      in if buffer d = None then Inr (False, d)
         else
           case clearDisplay d of
             Inl e \<Rightarrow> Inl e
           | Inr d \<Rightarrow>
               (case (if 32 < sint (HEIGHT d) then
                        drawBitmap
                          (word_of_int ((sint (WIDTH d) - sint (bm_width splash1)) sdiv 2))
                          (word_of_int ((sint (HEIGHT d) - sint (bm_height splash1)) sdiv 2))
                          (bm_data splash1) (bm_width splash1) (bm_height splash1) 1 d
                      else
                        drawBitmap
                          (word_of_int ((sint (WIDTH d) - sint (bm_width splash2)) sdiv 2))
                          (word_of_int ((sint (HEIGHT d) - sint (bm_height splash2)) sdiv 2))
                          (bm_data splash2) (bm_width splash2) (bm_height splash2) 1 d) of
                  Inl e \<Rightarrow> Inl e
                | Inr d \<Rightarrow> Inr (True, init_sequence d)))"

section \<open>Well-formed objects\<close>

text \<open>
  The constructor takes the panel size as two \<open>uint8_t\<close>, so the native dimensions
  lie in 0..255. After a successful \<open>begin\<close> the buffer is a block of
  \<open>WIDTH * ((HEIGHT + 7) / 8)\<close> bytes; the drawing functions must not be called
  before (the note on \<open>begin\<close> in the source).
\<close>

definition native_size :: "ssd1306 \<Rightarrow> bool" where
  "native_size d \<longleftrightarrow>
     0 \<le> sint (WIDTH d) \<and> sint (WIDTH d) \<le> 255 \<and>
     0 \<le> sint (HEIGHT d) \<and> sint (HEIGHT d) \<le> 255"

definition allocated :: "ssd1306 \<Rightarrow> bool" where
  "allocated d \<longleftrightarrow>
     native_size d \<and>
     (case buffer d of None \<Rightarrow> False | Some b \<Rightarrow> int (length b) = buffer_size d)"

section \<open>Vocabulary of the properties\<close>

text \<open>
  The buffer byte and the bit in it that \<open>drawPixel\<close> and \<open>getPixel\<close> address for
  the logical coordinate \<open>(x, y)\<close>: the index expression and the shift count of the
  source, on the rotated coordinates.
\<close>

definition pixel_byte :: "ssd1306 \<Rightarrow> int16_t \<Rightarrow> int16_t \<Rightarrow> nat" where
  "pixel_byte d x y = (case rotate_coords d x y of (px, py) \<Rightarrow> nat (byte_index d px py))"

definition pixel_bit :: "ssd1306 \<Rightarrow> int16_t \<Rightarrow> int16_t \<Rightarrow> nat" where
  "pixel_bit d x y = (case rotate_coords d x y of (px, py) \<Rightarrow> bit_pos py)"

text \<open>
  \<open>other_bits_unchanged b b' i k\<close>: the buffers \<open>b\<close> and \<open>b'\<close> have the same
  length and agree on every bit except, possibly, bit \<open>k\<close> of byte \<open>i\<close>.
\<close>

definition other_bits_unchanged :: "uint8_t list \<Rightarrow> uint8_t list \<Rightarrow> nat \<Rightarrow> nat \<Rightarrow> bool" where
  "other_bits_unchanged b b' i k \<longleftrightarrow>
     length b' = length b \<and>
     (\<forall>j<length b. \<forall>n<8. (j \<noteq> i \<or> n \<noteq> k) \<longrightarrow> bit (b' ! j) n = bit (b ! j) n)"

text \<open>
  The coordinate transform as the spec words it, on mathematical integers, with an
  ordinary swap: rotation 0 leaves \<open>(x, y)\<close>; rotation 1 swaps, then \<open>x' = W-1-x\<close>;
  rotation 2 sets \<open>x' = W-1-x\<close> and \<open>y' = H-1-y\<close>; rotation 3 swaps, then
  \<open>y' = H-1-y\<close>.
\<close>

definition transform_spec :: "int \<Rightarrow> int \<Rightarrow> uint8_t \<Rightarrow> int \<times> int \<Rightarrow> int \<times> int" where
  "transform_spec W H r p =
     (case p of (x, y) \<Rightarrow>
        if r = 1 then (case (y, x) of (x, y) \<Rightarrow> (W - 1 - x, y))
        else if r = 2 then (W - 1 - x, H - 1 - y)
        else if r = 3 then (case (y, x) of (x, y) \<Rightarrow> (x, H - 1 - y))
        else (x, y))"

text \<open>
  Example objects: a 128 by 64 panel on port 0 whose I2C driver always has a link to
  give, with an allocated buffer of 1024 bytes that all hold \<open>0xFF\<close>.
\<close>

definition panel_128x64 :: ssd1306 where
  "panel_128x64 = (Adafruit_SSD1306 128 64 0 0 (\<lambda>n. True))\<lparr>buffer := Some (replicate 1024 0xFF)\<rparr>"

text \<open>
  \<open>only_commands_sent d d'\<close>: going from \<open>d\<close> to \<open>d'\<close>, nothing of the object
  changed but the bus log and the I2C driver's coming answers, the log only grew, and
  every transaction added to it is on the command stream.
\<close>

definition command_transaction :: "uint8_t list \<Rightarrow> bool" where
  "command_transaction t \<longleftrightarrow> t \<noteq> [] \<and> hd t = SSD1306_CMD_STREAM"

definition only_commands_sent :: "ssd1306 \<Rightarrow> ssd1306 \<Rightarrow> bool" where
  "only_commands_sent d d' \<longleftrightarrow>
     d' = d\<lparr>bus := bus d', links := links d'\<rparr> \<and>
     take (length (bus d)) (bus d') = bus d \<and>
     list_all command_transaction (drop (length (bus d)) (bus d'))"

text \<open>
  The contrast that \<open>begin\<close> stores for a native panel size, as its chain of
  comparisons selects it.
\<close>

definition contrast_for :: "int \<Rightarrow> int \<Rightarrow> uint8_t" where
  "contrast_for w h =
     (if w = 128 \<and> h = 32 then 0x8F
      else if w = 128 \<and> h = 64 then 0xCF
      else if w = 96 \<and> h = 16 then 0xAF
      else 0x8F)"

text \<open>A two by two splash bitmap with its diagonal set, for examples.\<close>

definition small_splash :: bitmap where
  "small_splash = \<lparr>bm_width = 2, bm_height = 2, bm_data = (\<lambda>i j. i = j)\<rparr>"

section \<open>Arithmetic and bit lemmas\<close>

lemma ssd1306_swap_eq: "ssd1306_swap a b = (b, a)"
  by (auto simp add: ssd1306_swap_def Let_def bit_eq_iff bit_simps)

lemma sint_narrow:
  "- 32768 \<le> k \<Longrightarrow> k < 32768 \<Longrightarrow> sint (word_of_int k :: int16_t) = k"
  by (simp add: sint_sbintrunc' signed_take_bit_int_eq_self)

lemma sint16_range: "- 32768 \<le> sint (w :: int16_t) \<and> sint w < 32768"
  using sint_range_size [of w] by (simp add: word_size)

lemma sint_mirror:
  assumes "0 \<le> sint v" "sint v < sint W"
  shows "sint (W - v - 1 :: int16_t) = sint W - sint v - 1"
proof -
  have "W - v - 1 = (word_of_int (sint W - sint v - 1) :: int16_t)" by simp
  moreover have "sint (word_of_int (sint W - sint v - 1) :: int16_t) = sint W - sint v - 1"
    using assms sint16_range [of W] sint16_range [of v] by (intro sint_narrow) auto
  ultimately show ?thesis by simp
qed

lemma sdiv_nonneg: "0 \<le> k \<Longrightarrow> k sdiv 8 = k div (8::int)"
  by (simp add: signed_divide_int_def sgn_if)

lemma and_7_mod: "k AND 7 = k mod (8::int)"
proof -
  have "(7::int) = mask 3" by (simp add: mask_eq_exp_minus_1)
  then have "k AND 7 = take_bit 3 k" by (simp add: take_bit_eq_mask)
  then show ?thesis by (simp add: take_bit_eq_mod)
qed

lemma index_in_range:
  fixes px py W H :: int
  assumes "0 \<le> px" "px < W" "0 \<le> py" "py < H"
  shows "0 \<le> px + (py sdiv 8) * W" and "px + (py sdiv 8) * W < W * ((H + 7) sdiv 8)"
proof -
  have q: "py sdiv 8 = py div 8" and Hq: "(H + 7) sdiv 8 = (H + 7) div 8"
    using assms by (simp_all add: sdiv_nonneg)
  have q0: "0 \<le> py div 8" using assms by simp
  have W0: "0 < W" using assms by simp
  show "0 \<le> px + (py sdiv 8) * W" using assms q0 W0 by (simp add: q)
  have "py div 8 + 1 \<le> (H + 7) div 8" using assms by simp
  then have "(py div 8 + 1) * W \<le> ((H + 7) div 8) * W"
    using W0 by (simp add: mult_right_mono)
  moreover have "px + (py div 8) * W < (py div 8 + 1) * W"
    using assms by (simp add: algebra_simps)
  ultimately show "px + (py sdiv 8) * W < W * ((H + 7) sdiv 8)"
    by (simp add: q Hq mult.commute)
qed

lemma bit_pos_less: "bit_pos y < 8"
proof -
  have "sint y AND 7 \<le> 7" by (simp add: AND_upper2)
  moreover have "0 \<le> sint y AND 7" by simp
  ultimately show ?thesis unfolding bit_pos_def by linarith
qed

lemma bit_set_byte:
  "bit (word_of_int (uint (b :: uint8_t) OR 2 ^ n) :: uint8_t) k \<longleftrightarrow> bit b k \<or> (k = n \<and> n < 8)"
  by (auto simp add: bit_simps simp flip: push_bit_of_1 dest: bit_imp_le_length)

lemma bit_clear_byte:
  "bit (word_of_int (uint (b :: uint8_t) AND NOT (2 ^ n)) :: uint8_t) k \<longleftrightarrow> bit b k \<and> k \<noteq> n"
  by (auto simp add: bit_simps simp flip: push_bit_of_1 dest: bit_imp_le_length)

lemma bit_flip_byte:
  "bit (word_of_int (uint (b :: uint8_t) XOR 2 ^ n) :: uint8_t) k \<longleftrightarrow> (bit b k \<noteq> (k = n \<and> n < 8))"
  by (auto simp add: bit_simps simp flip: push_bit_of_1 dest: bit_imp_le_length)

lemma test_byte: "(uint (b :: uint8_t) AND push_bit n 1 \<noteq> 0) \<longleftrightarrow> bit b n"
  by (auto simp add: push_bit_of_1 and_exp_eq_0_iff_not_bit bit_uint_iff dest: bit_imp_le_length)

lemma test_byte_exp: "(uint (b :: uint8_t) AND 2 ^ n \<noteq> 0) \<longleftrightarrow> bit b n"
  using test_byte [of b n] by (simp add: push_bit_of_1)

lemma set_byte_word: "(word_of_int (uint (v :: uint8_t) OR 2 ^ k) :: uint8_t) = v OR push_bit k 1"
  by (rule bit_word_eqI) (auto simp add: bit_set_byte bit_simps)

lemma clear_byte_word: "(word_of_int (uint (v :: uint8_t) AND NOT (2 ^ k)) :: uint8_t) = v AND NOT (push_bit k 1)"
  by (rule bit_word_eqI) (auto simp add: bit_clear_byte bit_simps)

lemma flip_byte_word: "(word_of_int (uint (v :: uint8_t) XOR 2 ^ k) :: uint8_t) = v XOR push_bit k 1"
  by (rule bit_word_eqI) (auto simp add: bit_flip_byte bit_simps)

section \<open>What drawPixel and getPixel do inside the logical bounds\<close>

lemma rotate_in_range:
  assumes "allocated d" "in_bounds d x y" "rotate_coords d x y = (px, py)"
  shows "0 \<le> sint px \<and> sint px < sint (WIDTH d) \<and> 0 \<le> sint py \<and> sint py < sint (HEIGHT d)"
  using assms sint16_range [of "WIDTH d"] sint16_range [of "HEIGHT d"]
  by (auto simp add: allocated_def native_size_def in_bounds_def rotate_coords_def getRotation_def
      width_def height_def ssd1306_swap_eq sint_mirror split: if_splits)

lemma rotate_coords_spec:
  assumes "allocated d" "in_bounds d x y" "rotate_coords d x y = (px, py)"
  shows "transform_spec (sint (WIDTH d)) (sint (HEIGHT d)) (rotation d) (sint x, sint y) = (sint px, sint py)"
  using assms
  by (auto simp add: allocated_def native_size_def in_bounds_def rotate_coords_def getRotation_def
      transform_spec_def width_def height_def ssd1306_swap_eq sint_mirror split: if_splits)

lemma byte_index_in_buffer:
  assumes "allocated d" "in_bounds d x y" "rotate_coords d x y = (px, py)" "buffer d = Some b"
  shows "0 \<le> byte_index d px py \<and> byte_index d px py < int (length b)"
proof -
  have r: "0 \<le> sint px \<and> sint px < sint (WIDTH d) \<and> 0 \<le> sint py \<and> sint py < sint (HEIGHT d)"
    using assms(1-3) by (rule rotate_in_range)
  have len: "int (length b) = sint (WIDTH d) * ((sint (HEIGHT d) + 7) sdiv 8)"
    using assms(1,4) by (simp add: allocated_def buffer_size_def)
  show ?thesis
    unfolding byte_index_def len using r index_in_range [of "sint px" "sint (WIDTH d)" "sint py" "sint (HEIGHT d)"]
    by simp
qed

lemma drawPixel_in_bounds:
  assumes "allocated d" "in_bounds d x y" "rotate_coords d x y = (px, py)" "buffer d = Some b"
  shows "drawPixel x y color d =
     (if color = SSD1306_WHITE then
        Inr (d\<lparr>buffer := Some (b[nat (byte_index d px py) :=
                 word_of_int (uint (b ! nat (byte_index d px py)) OR bit_mask py)])\<rparr>)
      else if color = SSD1306_BLACK then
        Inr (d\<lparr>buffer := Some (b[nat (byte_index d px py) :=
                 word_of_int (uint (b ! nat (byte_index d px py)) AND NOT (bit_mask py))])\<rparr>)
      else if color = SSD1306_INVERSE then
        Inr (d\<lparr>buffer := Some (b[nat (byte_index d px py) :=
                 word_of_int (uint (b ! nat (byte_index d px py)) XOR bit_mask py)])\<rparr>)
      else Inr d)"
  using assms byte_index_in_buffer [OF assms]
  by (simp add: drawPixel_def buffer_modify_def)

lemma getPixel_in_bounds:
  assumes "allocated d" "in_bounds d x y" "rotate_coords d x y = (px, py)" "buffer d = Some b"
  shows "getPixel x y d = Inr (bit (b ! nat (byte_index d px py)) (bit_pos py))"
  using assms byte_index_in_buffer [OF assms]
  by (simp add: getPixel_def buffer_read_def bit_mask_def test_byte_exp)

lemma allocated_buffer_update:
  "allocated d \<Longrightarrow> buffer d = Some b \<Longrightarrow> length b' = length b \<Longrightarrow> allocated (d\<lparr>buffer := Some b'\<rparr>)"
  by (simp add: allocated_def native_size_def buffer_size_def)

lemma rotate_coords_buffer_update [simp]:
  "rotate_coords (d\<lparr>buffer := v\<rparr>) x y = rotate_coords d x y"
  by (simp add: rotate_coords_def getRotation_def)

lemma in_bounds_buffer_update [simp]:
  "in_bounds (d\<lparr>buffer := v\<rparr>) x y = in_bounds d x y"
  by (simp add: in_bounds_def width_def height_def)

lemma byte_index_buffer_update [simp]:
  "byte_index (d\<lparr>buffer := v\<rparr>) x y = byte_index d x y"
  by (simp add: byte_index_def)

lemma other_bits_unchanged_update:
  assumes "i < length b" "\<And>n. n \<noteq> k \<Longrightarrow> bit v n = bit (b ! i) n"
  shows "other_bits_unchanged b (b[i := v]) i k"
  using assms by (auto simp add: other_bits_unchanged_def nth_list_update)

lemma allocated_rotation_update:
  "allocated (d\<lparr>rotation := r\<rparr>) = allocated d"
  by (simp add: allocated_def native_size_def buffer_size_def split: option.splits)

lemma colours_distinct:
  "SSD1306_BLACK \<noteq> SSD1306_WHITE" "SSD1306_INVERSE \<noteq> SSD1306_WHITE"
  "SSD1306_INVERSE \<noteq> SSD1306_BLACK"
  by (simp_all add: SSD1306_BLACK_def SSD1306_WHITE_def SSD1306_INVERSE_def)

lemma panel_128x64_fields:
  "sint (WIDTH panel_128x64) = 128" "sint (HEIGHT panel_128x64) = 64"
  "rotation panel_128x64 = 0" "buffer panel_128x64 = Some (replicate 1024 0xFF)"
  "bus panel_128x64 = []"
  by (simp_all add: panel_128x64_def Adafruit_SSD1306_def)

lemma panel_128x64_allocated: "allocated panel_128x64"
  by (simp add: allocated_def native_size_def buffer_size_def panel_128x64_fields
      signed_divide_int_def)

lemma white_10_20_after_clear:
  assumes al: "allocated d" and W: "sint (WIDTH d) = 128" and H: "sint (HEIGHT d) = 64"
    and rot: "rotation d = 0"
  shows "\<exists>d0. clearDisplay d = Inr d0 \<and>
         drawPixel 10 20 SSD1306_WHITE d0 =
           Inr (d0\<lparr>buffer := Some ((replicate 1024 0)[266 := push_bit 4 1])\<rparr>)"
proof -
  obtain b where b: "buffer d = Some b"
    using al by (auto simp add: allocated_def split: option.splits)
  have n: "buffer_size d = 1024" by (simp add: buffer_size_def W H signed_divide_int_def)
  have len: "length b = 1024" using al b n by (simp add: allocated_def)
  define d0 where "d0 = d\<lparr>buffer := Some (replicate 1024 0)\<rparr>"
  have c: "clearDisplay d = Inr d0"
    by (simp add: clearDisplay_def b n len d0_def)
  have al0: "allocated d0"
    unfolding d0_def using al b by (rule allocated_buffer_update) (simp add: len)
  have ib: "in_bounds d0 10 20"
    by (simp add: d0_def in_bounds_def width_def height_def rot W H)
  have r: "rotate_coords d0 10 20 = (10, 20)"
    by (simp add: d0_def rotate_coords_def getRotation_def rot)
  have b0: "buffer d0 = Some (replicate 1024 0)" by (simp add: d0_def)
  have idx: "byte_index d0 10 20 = 266"
    by (simp add: byte_index_def d0_def W signed_divide_int_def)
  have bp: "bit_pos 20 = 4"
    by (simp add: bit_pos_def and_7_mod)
  have "drawPixel 10 20 SSD1306_WHITE d0 =
      Inr (d0\<lparr>buffer := Some ((replicate 1024 0)[266 := push_bit 4 1])\<rparr>)"
    using drawPixel_in_bounds [OF al0 ib r b0, of SSD1306_WHITE]
    by (simp add: idx bit_mask_def bp)
  with c show ?thesis by blast
qed

section \<open>Claims about single pixels\<close>

text \<open>
  C1. On an object whose buffer \<open>begin\<close> has allocated, for every rotation in
  \<open>{0, 1, 2, 3}\<close> and every logical coordinate \<open>(x, y)\<close> inside
  \<open>[0, width()) \<times> [0, height())\<close>: \<open>drawPixel\<close> with white returns normally and
  \<open>getPixel\<close> at the same coordinate then returns true; with black, \<open>getPixel\<close>
  then returns false; in both cases nothing but the buffer changes, and every buffer bit
  other than the one addressed by the transformed coordinate keeps its value.
\<close>

theorem drawPixel_getPixel_round_trip:
  assumes "allocated d" and "rotation d \<in> {0, 1, 2, 3}" and "in_bounds d x y"
  shows "\<exists>b bw bb.
     buffer d = Some b \<and>
     drawPixel x y SSD1306_WHITE d = Inr (d\<lparr>buffer := Some bw\<rparr>) \<and>
     getPixel x y (d\<lparr>buffer := Some bw\<rparr>) = Inr True \<and>
     other_bits_unchanged b bw (pixel_byte d x y) (pixel_bit d x y) \<and>
     drawPixel x y SSD1306_BLACK d = Inr (d\<lparr>buffer := Some bb\<rparr>) \<and>
     getPixel x y (d\<lparr>buffer := Some bb\<rparr>) = Inr False \<and>
     other_bits_unchanged b bb (pixel_byte d x y) (pixel_bit d x y)"
proof -
  obtain b where b: "buffer d = Some b"
    using assms(1) by (auto simp add: allocated_def split: option.splits)
  obtain px py where r: "rotate_coords d x y = (px, py)"
    by (cases "rotate_coords d x y")
  define i where "i = nat (byte_index d px py)"
  define k where "k = bit_pos py"
  define bw where "bw = b[i := word_of_int (uint (b ! i) OR bit_mask py)]"
  define bb where "bb = b[i := word_of_int (uint (b ! i) AND NOT (bit_mask py))]"
  have i: "i < length b"
    using byte_index_in_buffer [OF assms(1,3) r b] unfolding i_def by linarith
  have k: "k < 8" by (simp add: k_def bit_pos_less)
  have addr: "pixel_byte d x y = i" "pixel_bit d x y = k"
    by (simp_all add: pixel_byte_def pixel_bit_def r i_def k_def)
  have dw: "drawPixel x y SSD1306_WHITE d = Inr (d\<lparr>buffer := Some bw\<rparr>)"
    using drawPixel_in_bounds [OF assms(1,3) r b, of SSD1306_WHITE]
    by (simp add: bw_def i_def)
  have db: "drawPixel x y SSD1306_BLACK d = Inr (d\<lparr>buffer := Some bb\<rparr>)"
    using drawPixel_in_bounds [OF assms(1,3) r b, of SSD1306_BLACK]
    by (simp add: bb_def i_def SSD1306_BLACK_def SSD1306_WHITE_def)
  have aw: "allocated (d\<lparr>buffer := Some bw\<rparr>)"
    using assms(1) b by (rule allocated_buffer_update) (simp add: bw_def)
  have ab: "allocated (d\<lparr>buffer := Some bb\<rparr>)"
    using assms(1) b by (rule allocated_buffer_update) (simp add: bb_def)
  have gw: "getPixel x y (d\<lparr>buffer := Some bw\<rparr>) = Inr True"
    using getPixel_in_bounds [OF aw, of x y px py bw] assms(3) r i k
    by (simp add: bw_def i_def [symmetric] k_def [symmetric] bit_mask_def bit_set_byte)
  have gb: "getPixel x y (d\<lparr>buffer := Some bb\<rparr>) = Inr False"
    using getPixel_in_bounds [OF ab, of x y px py bb] assms(3) r i k
    by (simp add: bb_def i_def [symmetric] k_def [symmetric] bit_mask_def bit_clear_byte)
  have ow: "other_bits_unchanged b bw i k"
    unfolding bw_def using i
    by (rule other_bits_unchanged_update) (simp add: bit_mask_def k_def bit_set_byte)
  have ob: "other_bits_unchanged b bb i k"
    unfolding bb_def using i
    by (rule other_bits_unchanged_update) (simp add: bit_mask_def k_def bit_clear_byte)
  show ?thesis
    using b dw db gw gb ow ob by (auto simp add: addr)
qed

theorem drawPixel_getPixel_round_trip_witness:
  "allocated (panel_128x64\<lparr>rotation := 1\<rparr>) \<and>
   rotation (panel_128x64\<lparr>rotation := 1\<rparr>) \<in> {0, 1, 2, 3} \<and>
   in_bounds (panel_128x64\<lparr>rotation := 1\<rparr>) 3 100 \<and>
   (\<exists>bw. drawPixel 3 100 SSD1306_WHITE (panel_128x64\<lparr>rotation := 1\<rparr>) =
           Inr (panel_128x64\<lparr>rotation := 1, buffer := Some bw\<rparr>) \<and>
         getPixel 3 100 (panel_128x64\<lparr>rotation := 1, buffer := Some bw\<rparr>) = Inr True)"
proof -
  let ?d = "panel_128x64\<lparr>rotation := 1\<rparr>"
  have a: "allocated ?d"
    using panel_128x64_allocated by (simp add: allocated_rotation_update)
  have r: "rotation ?d \<in> {0, 1, 2, 3}" by simp
  have i: "in_bounds ?d 3 100"
    by (simp add: in_bounds_def width_def height_def panel_128x64_fields)
  from drawPixel_getPixel_round_trip [OF a r i] a r i show ?thesis by auto
qed

text \<open>
  C2. Inside the logical bounds the pixel that \<open>drawPixel\<close> and \<open>getPixel\<close> address
  is the one the spec's transform names: with \<open>(px, py)\<close> the transform of \<open>(x, y)\<close>
  for the native size \<open>W\<close>, \<open>H\<close>, the byte is \<open>px + (py / 8) * W\<close> and the bit
  \<open>py & 7\<close>; white sets that bit, black clears it, inverse flips it, and \<open>getPixel\<close>
  reads it. On a 128 by 64 panel at rotation 0, white at \<open>(10, 20)\<close> after a clear
  leaves bit 4 of byte \<open>10 + (20 / 8) * 128 = 266\<close> set (the division is C's integer
  division) and every other bit zero.
\<close>

theorem pixel_address:
  "(\<forall>d x y. allocated d \<and> rotation d \<in> {0, 1, 2, 3} \<and> in_bounds d x y \<longrightarrow>
      (\<exists>b px py.
         buffer d = Some b \<and>
         transform_spec (sint (WIDTH d)) (sint (HEIGHT d)) (rotation d) (sint x, sint y) = (px, py) \<and>
         (let i = nat (px + (py div 8) * sint (WIDTH d)); k = nat (py AND 7) in
            i < length b \<and> k < 8 \<and>
            drawPixel x y SSD1306_WHITE d =
              Inr (d\<lparr>buffer := Some (b[i := b ! i OR push_bit k 1])\<rparr>) \<and>
            drawPixel x y SSD1306_BLACK d =
              Inr (d\<lparr>buffer := Some (b[i := b ! i AND NOT (push_bit k 1)])\<rparr>) \<and>
            drawPixel x y SSD1306_INVERSE d =
              Inr (d\<lparr>buffer := Some (b[i := b ! i XOR push_bit k 1])\<rparr>) \<and>
            getPixel x y d = Inr (bit (b ! i) k)))) \<and>
   (\<forall>d. allocated d \<and> sint (WIDTH d) = 128 \<and> sint (HEIGHT d) = 64 \<and> rotation d = 0 \<longrightarrow>
      (\<exists>d0. clearDisplay d = Inr d0 \<and>
         drawPixel 10 20 SSD1306_WHITE d0 =
           Inr (d0\<lparr>buffer := Some ((replicate 1024 0)[266 := push_bit 4 1])\<rparr>)))"
proof (intro conjI allI impI)
  fix d x y
  assume a: "allocated d \<and> rotation d \<in> {0, 1, 2, 3} \<and> in_bounds d x y"
  then have al: "allocated d" and ib: "in_bounds d x y" by simp_all
  obtain b where b: "buffer d = Some b"
    using al by (auto simp add: allocated_def split: option.splits)
  obtain px py where r: "rotate_coords d x y = (px, py)"
    by (cases "rotate_coords d x y")
  have t: "transform_spec (sint (WIDTH d)) (sint (HEIGHT d)) (rotation d) (sint x, sint y)
             = (sint px, sint py)"
    using al ib r by (rule rotate_coords_spec)
  have rng: "0 \<le> sint px \<and> sint px < sint (WIDTH d) \<and> 0 \<le> sint py \<and> sint py < sint (HEIGHT d)"
    using al ib r by (rule rotate_in_range)
  have idx: "byte_index d px py = sint px + (sint py div 8) * sint (WIDTH d)"
    using rng by (simp add: byte_index_def sdiv_nonneg)
  have i: "nat (byte_index d px py) < length b"
    using byte_index_in_buffer [OF al ib r b] by linarith
  have k: "bit_pos py < 8" by (rule bit_pos_less)
  have colours: "SSD1306_BLACK \<noteq> SSD1306_WHITE" "SSD1306_INVERSE \<noteq> SSD1306_WHITE"
      "SSD1306_INVERSE \<noteq> SSD1306_BLACK"
    by (simp_all add: SSD1306_BLACK_def SSD1306_WHITE_def SSD1306_INVERSE_def)
  have dw: "drawPixel x y SSD1306_WHITE d =
      Inr (d\<lparr>buffer := Some (b[nat (byte_index d px py) :=
             b ! nat (byte_index d px py) OR push_bit (bit_pos py) 1])\<rparr>)"
    using drawPixel_in_bounds [OF al ib r b, of SSD1306_WHITE]
    by (simp add: bit_mask_def set_byte_word)
  have db: "drawPixel x y SSD1306_BLACK d =
      Inr (d\<lparr>buffer := Some (b[nat (byte_index d px py) :=
             b ! nat (byte_index d px py) AND NOT (push_bit (bit_pos py) 1)])\<rparr>)"
    using drawPixel_in_bounds [OF al ib r b, of SSD1306_BLACK] colours
    by (simp add: bit_mask_def clear_byte_word)
  have di: "drawPixel x y SSD1306_INVERSE d =
      Inr (d\<lparr>buffer := Some (b[nat (byte_index d px py) :=
             b ! nat (byte_index d px py) XOR push_bit (bit_pos py) 1])\<rparr>)"
    using drawPixel_in_bounds [OF al ib r b, of SSD1306_INVERSE] colours
    by (simp add: bit_mask_def flip_byte_word)
  have g: "getPixel x y d = Inr (bit (b ! nat (byte_index d px py)) (bit_pos py))"
    using al ib r b by (rule getPixel_in_bounds)
  show "\<exists>b px py.
         buffer d = Some b \<and>
         transform_spec (sint (WIDTH d)) (sint (HEIGHT d)) (rotation d) (sint x, sint y) = (px, py) \<and>
         (let i = nat (px + (py div 8) * sint (WIDTH d)); k = nat (py AND 7) in
            i < length b \<and> k < 8 \<and>
            drawPixel x y SSD1306_WHITE d =
              Inr (d\<lparr>buffer := Some (b[i := b ! i OR push_bit k 1])\<rparr>) \<and>
            drawPixel x y SSD1306_BLACK d =
              Inr (d\<lparr>buffer := Some (b[i := b ! i AND NOT (push_bit k 1)])\<rparr>) \<and>
            drawPixel x y SSD1306_INVERSE d =
              Inr (d\<lparr>buffer := Some (b[i := b ! i XOR push_bit k 1])\<rparr>) \<and>
            getPixel x y d = Inr (bit (b ! i) k))"
    apply (rule exI [of _ b], rule exI [of _ "sint px"], rule exI [of _ "sint py"])
    unfolding Let_def idx [symmetric] bit_pos_def [symmetric]
    using b t i k dw db di g by simp
next
  fix d
  assume "allocated d \<and> sint (WIDTH d) = 128 \<and> sint (HEIGHT d) = 64 \<and> rotation d = 0"
  then show "\<exists>d0. clearDisplay d = Inr d0 \<and>
         drawPixel 10 20 SSD1306_WHITE d0 =
           Inr (d0\<lparr>buffer := Some ((replicate 1024 0)[266 := push_bit 4 1])\<rparr>)"
    by (intro white_10_20_after_clear) simp_all
qed

theorem pixel_address_counterexample:
  "\<exists>d0 d1 b. clearDisplay panel_128x64 = Inr d0 \<and>
     drawPixel 10 20 SSD1306_WHITE d0 = Inr d1 \<and> buffer d1 = Some b \<and>
     b ! 330 = 0 \<and> b ! 266 = push_bit 4 1 \<and> b \<noteq> (replicate 1024 0)[330 := push_bit 4 1]"
proof -
  obtain d0 where c: "clearDisplay panel_128x64 = Inr d0"
    and p: "drawPixel 10 20 SSD1306_WHITE d0 =
           Inr (d0\<lparr>buffer := Some ((replicate 1024 0)[266 := push_bit 4 1])\<rparr>)"
    using white_10_20_after_clear [OF panel_128x64_allocated panel_128x64_fields(1-3)] by blast
  let ?b = "(replicate 1024 (0 :: uint8_t))[266 := push_bit 4 1]"
  have "?b ! 330 = 0" and v: "?b ! 266 = push_bit 4 1" by simp_all
  moreover have "?b \<noteq> (replicate 1024 0)[330 := push_bit 4 1]"
  proof
    assume "?b = (replicate 1024 0)[330 := push_bit 4 1]"
    then have "?b ! 266 = (replicate 1024 (0 :: uint8_t))[330 := push_bit 4 1] ! 266" by simp
    then show False by simp
  qed
  ultimately show ?thesis using c p by auto
qed

theorem pixel_address_witness:
  "allocated panel_128x64 \<and> rotation panel_128x64 \<in> {0, 1, 2, 3} \<and>
   in_bounds panel_128x64 10 20 \<and>
   drawPixel 10 20 SSD1306_BLACK panel_128x64 =
     Inr (panel_128x64\<lparr>buffer := Some ((replicate 1024 0xFF)[266 := 0xEF])\<rparr>) \<and>
   getPixel 10 20 panel_128x64 = Inr True"
proof -
  have a: "allocated panel_128x64" by (rule panel_128x64_allocated)
  have r: "rotation panel_128x64 \<in> {0, 1, 2, 3}" by (simp add: panel_128x64_fields)
  have i: "in_bounds panel_128x64 10 20"
    by (simp add: in_bounds_def width_def height_def panel_128x64_fields)
  have t: "transform_spec 128 64 0 (10, 20) = (10, 20)" by (simp add: transform_spec_def)
  have k: "nat ((20::int) AND 7) = 4" by (simp add: and_7_mod)
  from pixel_address a r i
  obtain b px py where b: "buffer panel_128x64 = Some b"
    and tr: "transform_spec (sint (WIDTH panel_128x64)) (sint (HEIGHT panel_128x64))
               (rotation panel_128x64) (sint (10 :: int16_t), sint (20 :: int16_t)) = (px, py)"
    and body: "let i = nat (px + (py div 8) * sint (WIDTH panel_128x64)); k = nat (py AND 7) in
            i < length b \<and> k < 8 \<and>
            drawPixel 10 20 SSD1306_WHITE panel_128x64 =
              Inr (panel_128x64\<lparr>buffer := Some (b[i := b ! i OR push_bit k 1])\<rparr>) \<and>
            drawPixel 10 20 SSD1306_BLACK panel_128x64 =
              Inr (panel_128x64\<lparr>buffer := Some (b[i := b ! i AND NOT (push_bit k 1)])\<rparr>) \<and>
            drawPixel 10 20 SSD1306_INVERSE panel_128x64 =
              Inr (panel_128x64\<lparr>buffer := Some (b[i := b ! i XOR push_bit k 1])\<rparr>) \<and>
            getPixel 10 20 panel_128x64 = Inr (bit (b ! i) k)"
    by blast
  have b': "b = replicate 1024 0xFF" using b by (simp add: panel_128x64_fields)
  have p: "px = 10" "py = 20" using tr t by (simp_all add: panel_128x64_fields)
  show ?thesis
    using body a r i by (simp add: Let_def b' p k panel_128x64_fields)
qed

text \<open>
  C4. For every \<open>(x, y)\<close> outside the logical bounds under the current rotation,
  \<open>drawPixel\<close> returns normally with the object, hence the buffer, unchanged,
  whatever the colour, and \<open>getPixel\<close> returns false; neither is a fault, even on a
  null buffer.
\<close>

theorem out_of_bounds_ignored:
  assumes "\<not> in_bounds d x y"
  shows "drawPixel x y color d = Inr d \<and> getPixel x y d = Inr False"
  using assms by (simp add: drawPixel_def getPixel_def)

theorem out_of_bounds_ignored_witness:
  "\<not> in_bounds panel_128x64 128 0 \<and>
   drawPixel 128 0 SSD1306_WHITE panel_128x64 = Inr panel_128x64 \<and>
   getPixel 128 0 panel_128x64 = Inr False"
proof -
  have n: "\<not> in_bounds panel_128x64 128 0"
    by (simp add: in_bounds_def width_def height_def panel_128x64_fields)
  from out_of_bounds_ignored [OF n] n show ?thesis by simp
qed

text \<open>
  C8. The rotation-2 branch of the coordinate switch, applied twice, gives back the
  coordinate it started from, for every \<open>(x, y)\<close>.
\<close>

theorem rotation_2_twice:
  assumes "getRotation d = 2"
  shows "(case rotate_coords d x y of (x', y') \<Rightarrow> rotate_coords d x' y') = (x, y)"
  using assms by (simp add: rotate_coords_def)

theorem rotation_2_twice_witness:
  "getRotation (panel_128x64\<lparr>rotation := 2\<rparr>) = 2 \<and>
   rotate_coords (panel_128x64\<lparr>rotation := 2\<rparr>) 10 20 = (117, 43) \<and>
   rotate_coords (panel_128x64\<lparr>rotation := 2\<rparr>) 117 43 = (10, 20)"
proof -
  let ?d = "panel_128x64\<lparr>rotation := 2\<rparr>"
  have g: "getRotation ?d = 2" by (simp add: getRotation_def)
  have s: "sint (WIDTH ?d) = 128" "sint (HEIGHT ?d) = 64" by (simp_all add: panel_128x64_fields)
  have f: "rotate_coords ?d 10 20 = (117, 43)"
    unfolding rotate_coords_def g s by simp
  from rotation_2_twice [OF g, of 10 20] f g show ?thesis by simp
qed

text \<open>
  C10. Inside the logical bounds, \<open>drawPixel\<close> with a colour that is none of
  \<open>SSD1306_WHITE\<close>, \<open>SSD1306_BLACK\<close> and \<open>SSD1306_INVERSE\<close> returns the object
  unchanged: the colour switch has no default branch.
\<close>

theorem unknown_colour_ignored:
  assumes "in_bounds d x y"
    and "color \<noteq> SSD1306_WHITE" and "color \<noteq> SSD1306_BLACK" and "color \<noteq> SSD1306_INVERSE"
  shows "drawPixel x y color d = Inr d"
  using assms by (simp add: drawPixel_def split: prod.splits)

theorem unknown_colour_ignored_witness:
  "in_bounds panel_128x64 10 20 \<and> (7 :: uint16_t) \<noteq> SSD1306_WHITE \<and> 7 \<noteq> SSD1306_BLACK \<and>
   7 \<noteq> SSD1306_INVERSE \<and> drawPixel 10 20 7 panel_128x64 = Inr panel_128x64"
proof -
  have i: "in_bounds panel_128x64 10 20"
    by (simp add: in_bounds_def width_def height_def panel_128x64_fields)
  have c: "(7 :: uint16_t) \<noteq> SSD1306_WHITE" "(7 :: uint16_t) \<noteq> SSD1306_BLACK"
    "(7 :: uint16_t) \<noteq> SSD1306_INVERSE"
    by (simp_all add: SSD1306_BLACK_def SSD1306_WHITE_def SSD1306_INVERSE_def)
  from unknown_colour_ignored [OF i c] i c show ?thesis by simp
qed

section \<open>Lemmas on bus transactions\<close>

lemma ssd1306_command1_fields [simp]:
  "WIDTH (ssd1306_command1 c d) = WIDTH d"
  "HEIGHT (ssd1306_command1 c d) = HEIGHT d"
  "rotation (ssd1306_command1 c d) = rotation d"
  "buffer (ssd1306_command1 c d) = buffer d"
  "contrast (ssd1306_command1 c d) = contrast d"
  "i2c (ssd1306_command1 c d) = i2c d"
  "links (ssd1306_command1 c d) = (\<lambda>n. links d (Suc n))"
  "bus (ssd1306_command1 c d) = (if links d 0 then bus d @ [[SSD1306_CMD_STREAM, c]] else bus d)"
  by (simp_all add: ssd1306_command1_def i2c_cmd_link_create_def i2c_master_cmd_begin_def)

lemma ssd1306_commandList_fields [simp]:
  "WIDTH (ssd1306_commandList cs d) = WIDTH d"
  "HEIGHT (ssd1306_commandList cs d) = HEIGHT d"
  "rotation (ssd1306_commandList cs d) = rotation d"
  "buffer (ssd1306_commandList cs d) = buffer d"
  "contrast (ssd1306_commandList cs d) = contrast d"
  "i2c (ssd1306_commandList cs d) = i2c d"
  "links (ssd1306_commandList cs d) = (\<lambda>n. links d (Suc n))"
  "bus (ssd1306_commandList cs d) =
     (if links d 0 then bus d @ [SSD1306_CMD_STREAM # cs] else bus d)"
  by (simp_all add: ssd1306_commandList_def i2c_cmd_link_create_def i2c_master_cmd_begin_def)

lemma only_commands_sent_iff:
  "only_commands_sent d d' \<longleftrightarrow>
     (\<exists>ts l. d' = d\<lparr>bus := bus d @ ts, links := l\<rparr> \<and> list_all command_transaction ts)"
proof
  assume a: "only_commands_sent d d'"
  let ?ts = "drop (length (bus d)) (bus d')"
  have "bus d' = bus d @ ?ts"
    using a append_take_drop_id [of "length (bus d)" "bus d'"]
    by (simp add: only_commands_sent_def)
  then have "d' = d\<lparr>bus := bus d @ ?ts, links := links d'\<rparr>"
    using a by (simp add: only_commands_sent_def)
  moreover have "list_all command_transaction ?ts"
    using a by (simp add: only_commands_sent_def)
  ultimately show "\<exists>ts l. d' = d\<lparr>bus := bus d @ ts, links := l\<rparr> \<and> list_all command_transaction ts"
    by blast
next
  assume "\<exists>ts l. d' = d\<lparr>bus := bus d @ ts, links := l\<rparr> \<and> list_all command_transaction ts"
  then show "only_commands_sent d d'"
    by (auto simp add: only_commands_sent_def)
qed

lemma only_commands_sent_refl: "only_commands_sent d d"
  by (simp add: only_commands_sent_def)

lemma only_commands_sent_trans:
  assumes "only_commands_sent a b" "only_commands_sent b c"
  shows "only_commands_sent a c"
proof -
  obtain ts l where b: "b = a\<lparr>bus := bus a @ ts, links := l\<rparr>" and ts: "list_all command_transaction ts"
    using assms(1) by (auto simp add: only_commands_sent_iff)
  obtain us m where c: "c = b\<lparr>bus := bus b @ us, links := m\<rparr>" and us: "list_all command_transaction us"
    using assms(2) by (auto simp add: only_commands_sent_iff)
  have "c = a\<lparr>bus := bus a @ (ts @ us), links := m\<rparr>"
    by (simp add: b c)
  moreover have "list_all command_transaction (ts @ us)" using ts us by simp
  ultimately show ?thesis unfolding only_commands_sent_iff by blast
qed

lemma only_commands_sent_command1: "only_commands_sent d (ssd1306_command1 c d)"
  by (simp add: only_commands_sent_def command_transaction_def ssd1306_command1_def
      i2c_cmd_link_create_def i2c_master_cmd_begin_def)

lemma only_commands_sent_commandList: "only_commands_sent d (ssd1306_commandList cs d)"
  by (simp add: only_commands_sent_def command_transaction_def ssd1306_commandList_def
      i2c_cmd_link_create_def i2c_master_cmd_begin_def)

lemma only_commands_sent_then_command1:
  "only_commands_sent d d' \<Longrightarrow> only_commands_sent d (ssd1306_command1 c d')"
  by (erule only_commands_sent_trans) (rule only_commands_sent_command1)

lemma only_commands_sent_then_commandList:
  "only_commands_sent d d' \<Longrightarrow> only_commands_sent d (ssd1306_commandList cs d')"
  by (erule only_commands_sent_trans) (rule only_commands_sent_commandList)

lemmas only_commands_sent_intros =
  only_commands_sent_then_command1 only_commands_sent_then_commandList only_commands_sent_refl

lemma only_commands_sent_buffer: "only_commands_sent d d' \<Longrightarrow> buffer d' = buffer d"
  by (auto simp add: only_commands_sent_iff)

lemma control_only_commands:
  "only_commands_sent d (invertDisplay i d)"
  "only_commands_sent d (dim dm d)"
  "only_commands_sent d (startscrollright start stop d)"
  "only_commands_sent d (startscrollleft start stop d)"
  "only_commands_sent d (startscrolldiagright start stop d)"
  "only_commands_sent d (startscrolldiagleft start stop d)"
  "only_commands_sent d (stopscroll d)"
  unfolding invertDisplay_def dim_def startscrollright_def startscrollleft_def
    startscrolldiagright_def startscrolldiagleft_def stopscroll_def Let_def
  by (intro only_commands_sent_intros)+

section \<open>Claims about device control\<close>

text \<open>
  C9. \<open>invertDisplay\<close>, \<open>dim\<close>, \<open>startscrollright\<close>, \<open>startscrollleft\<close>,
  \<open>startscrolldiagright\<close>, \<open>startscrolldiagleft\<close> and \<open>stopscroll\<close> leave the
  pixel buffer as it is, whatever their arguments and whatever the I2C driver answers;
  all they do is add command-stream transactions to the bus.
\<close>

theorem control_ops_keep_buffer:
  "buffer (invertDisplay i d) = buffer d \<and> only_commands_sent d (invertDisplay i d) \<and>
   buffer (dim dm d) = buffer d \<and> only_commands_sent d (dim dm d) \<and>
   buffer (startscrollright start stop d) = buffer d \<and>
   only_commands_sent d (startscrollright start stop d) \<and>
   buffer (startscrollleft start stop d) = buffer d \<and>
   only_commands_sent d (startscrollleft start stop d) \<and>
   buffer (startscrolldiagright start stop d) = buffer d \<and>
   only_commands_sent d (startscrolldiagright start stop d) \<and>
   buffer (startscrolldiagleft start stop d) = buffer d \<and>
   only_commands_sent d (startscrolldiagleft start stop d) \<and>
   buffer (stopscroll d) = buffer d \<and> only_commands_sent d (stopscroll d)"
  by (intro conjI control_only_commands only_commands_sent_buffer)

section \<open>Lemmas on clearing and refreshing\<close>

lemma buffer_size_ceil:
  "native_size d \<Longrightarrow> buffer_size d = sint (WIDTH d) * ((sint (HEIGHT d) + 7) div 8)"
  by (simp add: native_size_def buffer_size_def signed_divide_int_def sgn_if)

lemma buffer_size_range:
  assumes "native_size d"
  shows "0 \<le> buffer_size d \<and> buffer_size d \<le> 8160"
proof -
  let ?W = "sint (WIDTH d)" and ?P = "(sint (HEIGHT d) + 7) div 8"
  have W: "0 \<le> ?W" "?W \<le> 255"
    using assms by (simp_all add: native_size_def)
  have P: "0 \<le> ?P" "?P \<le> 32"
    using assms unfolding native_size_def by linarith+
  have "?W * ?P \<le> 255 * 32" using W P by (intro mult_mono) simp_all
  moreover have "0 \<le> ?W * ?P" using W P by simp
  ultimately show ?thesis using assms by (simp add: buffer_size_ceil)
qed

lemma allocated_length:
  assumes "allocated d" "buffer d = Some b"
  shows "length b = nat (buffer_size d)"
proof -
  have "int (length b) = buffer_size d" using assms by (simp add: allocated_def)
  then show ?thesis by linarith
qed

lemma buffer_size_command [simp]:
  "buffer_size (ssd1306_command1 c d) = buffer_size d"
  "buffer_size (ssd1306_commandList cs d) = buffer_size d"
  by (simp_all add: buffer_size_def)

lemma clearDisplay_allocated:
  assumes "allocated d"
  shows "clearDisplay d = Inr (d\<lparr>buffer := Some (replicate (nat (buffer_size d)) 0)\<rparr>)"
proof -
  obtain b where b: "buffer d = Some b" and len: "int (length b) = buffer_size d"
    using assms by (auto simp add: allocated_def split: option.splits)
  have "0 \<le> buffer_size d" using len by linarith
  then show ?thesis using len by (simp add: clearDisplay_def b)
qed

lemma write_buffer_take:
  "p + n \<le> length b \<Longrightarrow> write_buffer n (Some b) p cmd = Inr (cmd @ take n (drop p b))"
proof (induction n arbitrary: p cmd)
  case 0
  then show ?case by simp
next
  case (Suc n)
  then have p: "p < length b" by simp
  have "take (Suc n) (drop p b) = b ! p # take n (drop (Suc p) b)"
    using p by (simp add: Cons_nth_drop_Suc [symmetric])
  then show ?case using Suc p by simp
qed

lemma unat_count:
  "0 \<le> k \<Longrightarrow> k \<le> 8160 \<Longrightarrow> unat (word_of_int k :: uint16_t) = nat k"
  by (simp add: unat_eq_nat_uint uint_word_of_int take_bit_eq_mod)

lemma display_allocated:
  assumes "allocated d" "buffer d = Some b"
  shows "display d =
     (if links d 2 then
        Inr (d\<lparr>bus := (if links d 1
                        then (if links d 0 then bus d @ [SSD1306_CMD_STREAM # dlist1] else bus d) @
                             [[SSD1306_CMD_STREAM, word_of_int (sint (WIDTH d) - 1)]]
                        else (if links d 0 then bus d @ [SSD1306_CMD_STREAM # dlist1] else bus d)) @
                       [SSD1306_DATA_STREAM # b],
             links := \<lambda>n. links d (n + 3)\<rparr>)
      else Inl NullLink)"
proof -
  have ns: "native_size d" using assms(1) by (simp add: allocated_def)
  have len: "length b = nat (buffer_size d)" using assms by (rule allocated_length)
  have cnt: "unat (word_of_int (buffer_size d) :: uint16_t) = length b"
    using buffer_size_range [OF ns] by (simp add: unat_count len)
  have wb: "write_buffer (length b) (Some b) 0 [SSD1306_DATA_STREAM] = Inr (SSD1306_DATA_STREAM # b)"
    by (simp add: write_buffer_take)
  show ?thesis
    by (simp add: display_def Let_def i2c_cmd_link_create_def i2c_master_cmd_begin_def cnt
        assms(2) wb numeral_2_eq_2 numeral_3_eq_3)
qed

section \<open>Claims about clearing and refreshing\<close>

text \<open>
  C6. On an object with its buffer allocated, \<open>clearDisplay\<close> returns normally, sets
  each of the \<open>WIDTH * ceil(HEIGHT / 8)\<close> bytes of the buffer to zero and touches
  nothing else: the bus log and the I2C driver are as before. Afterwards, under each of
  the rotations 0, 1, 2 and 3, \<open>getPixel\<close> returns false at every coordinate inside
  the logical bounds.
\<close>

theorem clearDisplay_zeroes:
  assumes "allocated d"
  shows "\<exists>d'. clearDisplay d = Inr d' \<and>
     d' = d\<lparr>buffer := Some (replicate (nat (sint (WIDTH d) * ((sint (HEIGHT d) + 7) div 8))) 0)\<rparr> \<and>
     bus d' = bus d \<and> links d' = links d \<and>
     (\<forall>r \<in> {0, 1, 2, 3}. \<forall>x y.
        in_bounds (d'\<lparr>rotation := r\<rparr>) x y \<longrightarrow> getPixel x y (d'\<lparr>rotation := r\<rparr>) = Inr False)"
proof -
  define z where "z = replicate (nat (buffer_size d)) (0 :: uint8_t)"
  define d' where "d' = d\<lparr>buffer := Some z\<rparr>"
  have ns: "native_size d" using assms by (simp add: allocated_def)
  have c: "clearDisplay d = Inr d'"
    using assms by (simp add: clearDisplay_allocated d'_def z_def)
  have z: "z = replicate (nat (sint (WIDTH d) * ((sint (HEIGHT d) + 7) div 8))) 0"
    using ns by (simp add: z_def buffer_size_ceil)
  have al: "allocated d'"
    using assms buffer_size_range [OF ns]
    by (simp add: allocated_def native_size_def buffer_size_def d'_def z_def)
  have g: "getPixel x y (d'\<lparr>rotation := r\<rparr>) = Inr False"
    if ib: "in_bounds (d'\<lparr>rotation := r\<rparr>) x y" for r x y
  proof -
    let ?e = "d'\<lparr>rotation := r\<rparr>"
    have ale: "allocated ?e" using al by (simp add: allocated_rotation_update)
    have be: "buffer ?e = Some z" by (simp add: d'_def)
    obtain px py where r: "rotate_coords ?e x y = (px, py)"
      by (cases "rotate_coords ?e x y")
    have i: "nat (byte_index ?e px py) < length z"
      using byte_index_in_buffer [OF ale ib r be] by linarith
    have "z ! nat (byte_index ?e px py) = 0"
      using i by (simp add: z_def)
    then show ?thesis
      using getPixel_in_bounds [OF ale ib r be] by simp
  qed
  show ?thesis
    using c g by (intro exI [of _ d']) (simp add: d'_def z [symmetric])
qed

theorem clearDisplay_zeroes_witness:
  "allocated panel_128x64 \<and>
   clearDisplay panel_128x64 = Inr (panel_128x64\<lparr>buffer := Some (replicate 1024 0)\<rparr>) \<and>
   in_bounds (panel_128x64\<lparr>buffer := Some (replicate 1024 0), rotation := 3\<rparr>) 63 127 \<and>
   getPixel 63 127 (panel_128x64\<lparr>buffer := Some (replicate 1024 0), rotation := 3\<rparr>) = Inr False"
proof -
  have a: "allocated panel_128x64" by (rule panel_128x64_allocated)
  have i: "in_bounds (panel_128x64\<lparr>buffer := Some (replicate 1024 0), rotation := 3\<rparr>) 63 127"
    by (simp add: in_bounds_def width_def height_def panel_128x64_fields)
  from clearDisplay_zeroes [OF a] a i show ?thesis
    by (auto simp add: panel_128x64_fields)
qed

text \<open>
  C3. On an object with its buffer allocated, when the I2C driver hands
  out a link for each of the three transactions, \<open>display\<close> returns normally and adds
  to the bus exactly: one command transaction with the page-address command, start 0,
  end \<open>0xFF\<close>, the column-address command and its start 0; one command transaction
  with the column end \<open>WIDTH - 1\<close>; and one data-stream transaction with all
  \<open>WIDTH * ceil(HEIGHT / 8)\<close> bytes of the buffer in buffer order. The buffer
  contents play no part. When the link of a command transaction cannot be created, that
  transaction is left out and the rest is sent as before: whichever of the two command
  links are handed out, the bus gets the command transactions whose links were handed
  out, in order, and then the data transaction.
\<close>

theorem display_transactions:
  assumes "allocated d"
  shows "\<exists>b. buffer d = Some b \<and>
     int (length b) = sint (WIDTH d) * ((sint (HEIGHT d) + 7) div 8) \<and>
     (links d 0 \<and> links d 1 \<and> links d 2 \<longrightarrow>
        display d =
          Inr (d\<lparr>bus := bus d @
                       [[SSD1306_CMD_STREAM, SSD1306_PAGEADDR, 0, 0xFF, SSD1306_COLUMNADDR, 0],
                        [SSD1306_CMD_STREAM, word_of_int (sint (WIDTH d) - 1)],
                        SSD1306_DATA_STREAM # b],
                  links := \<lambda>n. links d (n + 3)\<rparr>)) \<and>
     (\<not> links d 0 \<and> links d 1 \<and> links d 2 \<longrightarrow>
        display d =
          Inr (d\<lparr>bus := bus d @
                       [[SSD1306_CMD_STREAM, word_of_int (sint (WIDTH d) - 1)],
                        SSD1306_DATA_STREAM # b],
                  links := \<lambda>n. links d (n + 3)\<rparr>)) \<and>
     (links d 0 \<and> \<not> links d 1 \<and> links d 2 \<longrightarrow>
        display d =
          Inr (d\<lparr>bus := bus d @
                       [[SSD1306_CMD_STREAM, SSD1306_PAGEADDR, 0, 0xFF, SSD1306_COLUMNADDR, 0],
                        SSD1306_DATA_STREAM # b],
                  links := \<lambda>n. links d (n + 3)\<rparr>)) \<and>
     (links d 2 \<longrightarrow>
        display d =
          Inr (d\<lparr>bus := bus d @
                       (if links d 0
                        then [[SSD1306_CMD_STREAM, SSD1306_PAGEADDR, 0, 0xFF,
                               SSD1306_COLUMNADDR, 0]]
                        else []) @
                       (if links d 1
                        then [[SSD1306_CMD_STREAM, word_of_int (sint (WIDTH d) - 1)]]
                        else []) @
                       [SSD1306_DATA_STREAM # b],
                  links := \<lambda>n. links d (n + 3)\<rparr>))"
proof -
  obtain b where b: "buffer d = Some b"
    using assms by (auto simp add: allocated_def split: option.splits)
  have ns: "native_size d" using assms by (simp add: allocated_def)
  have len: "int (length b) = sint (WIDTH d) * ((sint (HEIGHT d) + 7) div 8)"
    using assms b ns by (simp add: allocated_def buffer_size_ceil)
  show ?thesis
    using b len by (simp add: display_allocated [OF assms b] dlist1_def)
qed

theorem display_transactions_counterexample:
  "allocated (panel_128x64\<lparr>links := \<lambda>n. n \<noteq> 0\<rparr>) \<and>
   (\<exists>d'. display (panel_128x64\<lparr>links := \<lambda>n. n \<noteq> 0\<rparr>) = Inr d' \<and>
      bus d' = [[SSD1306_CMD_STREAM, 0x7F], SSD1306_DATA_STREAM # replicate 1024 0xFF] \<and>
      bus d' \<noteq> [[SSD1306_CMD_STREAM, SSD1306_PAGEADDR, 0, 0xFF, SSD1306_COLUMNADDR, 0],
                [SSD1306_CMD_STREAM, 0x7F],
                SSD1306_DATA_STREAM # replicate 1024 0xFF])"
proof -
  let ?d = "panel_128x64\<lparr>links := \<lambda>n. n \<noteq> 0\<rparr>"
  have a: "allocated ?d"
    using panel_128x64_allocated
    by (simp add: allocated_def native_size_def buffer_size_def split: option.splits)
  have b: "buffer ?d = Some (replicate 1024 0xFF)" by (simp add: panel_128x64_fields)
  have d: "display ?d =
      Inr (?d\<lparr>bus := [[SSD1306_CMD_STREAM, 0x7F], SSD1306_DATA_STREAM # replicate 1024 0xFF],
              links := \<lambda>n. links ?d (n + 3)\<rparr>)"
    unfolding display_allocated [OF a b] by (simp add: panel_128x64_fields)
  from a d show ?thesis by simp
qed

theorem display_transactions_witness:
  "allocated panel_128x64 \<and> links panel_128x64 0 \<and> links panel_128x64 1 \<and> links panel_128x64 2 \<and>
   (\<exists>d'. display panel_128x64 = Inr d' \<and>
      bus d' = [[SSD1306_CMD_STREAM, SSD1306_PAGEADDR, 0, 0xFF, SSD1306_COLUMNADDR, 0],
                [SSD1306_CMD_STREAM, 0x7F],
                SSD1306_DATA_STREAM # replicate 1024 0xFF])"
proof -
  have a: "allocated panel_128x64" by (rule panel_128x64_allocated)
  have l: "links panel_128x64 n" for n by (simp add: panel_128x64_def Adafruit_SSD1306_def)
  from display_transactions [OF a] a l show ?thesis
    by (auto simp add: panel_128x64_fields)
qed

section \<open>Lemmas on allocation and initialisation\<close>

lemma sint_ucast_byte: "sint (ucast (w :: uint8_t) :: int16_t) = uint w"
proof -
  have "uint (ucast w :: int16_t) = uint w" by (simp add: uint_up_ucast is_up)
  then have "sint (ucast w :: int16_t) = signed_take_bit 15 (uint w)" by (simp add: sint_uint)
  moreover have "- (2 ^ 15) \<le> uint w"
    by (rule order_trans [OF _ uint_ge_0]) simp
  moreover have "uint w < 2 ^ 15"
    using uint_lt2p [of w] by simp
  ultimately show ?thesis by (simp add: signed_take_bit_int_eq_self)
qed

lemma constructor_native_size: "native_size (Adafruit_SSD1306 w h port junk env)"
  using uint_lt2p [of w] uint_lt2p [of h]
  by (simp add: native_size_def Adafruit_SSD1306_def sint_ucast_byte)

lemma drawPixel_frame:
  "drawPixel x y color d = Inr d' \<Longrightarrow> d' = d\<lparr>buffer := buffer d'\<rparr>"
  by (auto simp add: drawPixel_def buffer_modify_def split: if_splits prod.splits option.splits)

lemma draw_pixels_frame:
  "draw_pixels ps color d = Inr d' \<Longrightarrow> d' = d\<lparr>buffer := buffer d'\<rparr>"
proof (induction ps arbitrary: d)
  case Nil
  then show ?case by simp
next
  case (Cons p ps)
  obtain x y where p: "p = (x, y)" by (cases p)
  from Cons.prems obtain d1 where 1: "drawPixel x y color d = Inr d1"
    and 2: "draw_pixels ps color d1 = Inr d'"
    by (auto simp add: p split: sum.splits)
  have "d1 = d\<lparr>buffer := buffer d1\<rparr>" using 1 by (rule drawPixel_frame)
  moreover have "d' = d1\<lparr>buffer := buffer d'\<rparr>" using 2 by (rule Cons.IH)
  ultimately show ?case by (metis ssd1306.update_convs(4) ssd1306.surjective ssd1306.select_convs)
qed

lemma clearDisplay_frame:
  "clearDisplay d = Inr d' \<Longrightarrow> d' = d\<lparr>buffer := buffer d'\<rparr>"
  by (auto simp add: clearDisplay_def split: if_splits option.splits)

lemma drawPixel_total:
  assumes "allocated d"
  shows "\<exists>d'. drawPixel x y color d = Inr d' \<and> allocated d'"
proof (cases "in_bounds d x y")
  case False
  then show ?thesis using assms by (simp add: drawPixel_def)
next
  case True
  obtain b where b: "buffer d = Some b"
    using assms by (auto simp add: allocated_def split: option.splits)
  obtain px py where r: "rotate_coords d x y = (px, py)"
    by (cases "rotate_coords d x y")
  show ?thesis
    using drawPixel_in_bounds [OF assms True r b, of color] assms
      allocated_buffer_update [OF assms b]
    by (auto split: if_splits)
qed

lemma draw_pixels_total:
  "allocated d \<Longrightarrow> \<exists>d'. draw_pixels ps color d = Inr d' \<and> allocated d'"
proof (induction ps arbitrary: d)
  case Nil
  then show ?case by simp
next
  case (Cons p ps)
  obtain x y where p: "p = (x, y)" by (cases p)
  obtain d1 where 1: "drawPixel x y color d = Inr d1" and a1: "allocated d1"
    using drawPixel_total [OF Cons.prems] by blast
  from Cons.IH [OF a1] show ?case by (simp add: p 1)
qed

lemma init_sequence_fields:
  "buffer (init_sequence d) = buffer d"
  "WIDTH (init_sequence d) = WIDTH d"
  "HEIGHT (init_sequence d) = HEIGHT d"
  "rotation (init_sequence d) = rotation d"
  "contrast (init_sequence d) = contrast_for (sint (WIDTH d)) (sint (HEIGHT d))"
  "links (init_sequence d) n = links d (n + 12)"
  by (simp_all add: init_sequence_def Let_def contrast_for_def eval_nat_numeral)

lemma allocated_init_sequence: "allocated d \<Longrightarrow> allocated (init_sequence d)"
  by (simp add: allocated_def native_size_def buffer_size_def init_sequence_fields
      split: option.splits)

lemma drawBitmap_frame:
  "drawBitmap x y bm w h color d = Inr d' \<Longrightarrow> d' = d\<lparr>buffer := buffer d'\<rparr>"
  unfolding drawBitmap_def by (rule draw_pixels_frame)

lemma drawBitmap_total:
  "allocated d \<Longrightarrow> \<exists>d'. drawBitmap x y bm w h color d = Inr d' \<and> allocated d'"
  unfolding drawBitmap_def by (rule draw_pixels_total)

lemma frame_trans:
  "d1 = d\<lparr>buffer := buffer d1\<rparr> \<Longrightarrow> d2 = d1\<lparr>buffer := buffer d2\<rparr> \<Longrightarrow> d2 = d\<lparr>buffer := buffer d2\<rparr>"
  by (metis ssd1306.update_convs(4) ssd1306.surjective)

lemma begin_true_shape:
  assumes "begin_ssd1306 heap_ok junk splash1 splash2 d = Inr (True, d')"
  shows "\<exists>b. d' = init_sequence (d\<lparr>buffer := b\<rparr>)"
proof -
  define da where "da = (if buffer d = None
     then d\<lparr>buffer := malloc heap_ok junk (buffer_size d)\<rparr> else d)"
  have da: "da = d\<lparr>buffer := buffer da\<rparr>" by (simp add: da_def)
  from assms obtain db dc x y bm w h where c: "clearDisplay da = Inr db"
    and p: "drawBitmap x y bm w h 1 db = Inr dc" and d': "d' = init_sequence dc"
    unfolding begin_ssd1306_def da_def [symmetric] Let_def
    by (auto split: if_splits sum.splits)
  have "db = da\<lparr>buffer := buffer db\<rparr>" using c by (rule clearDisplay_frame)
  with da have "db = d\<lparr>buffer := buffer db\<rparr>" by (rule frame_trans)
  moreover have "dc = db\<lparr>buffer := buffer dc\<rparr>" using p by (rule drawBitmap_frame)
  ultimately have "dc = d\<lparr>buffer := buffer dc\<rparr>" by (rule frame_trans)
  then have "init_sequence dc = init_sequence (d\<lparr>buffer := buffer dc\<rparr>)"
    by (rule arg_cong)
  then show ?thesis unfolding d' by (rule exI)
qed

lemma begin_alloc_fail:
  assumes "buffer d = None" "malloc heap_ok junk (buffer_size d) = None"
  shows "begin_ssd1306 heap_ok junk splash1 splash2 d = Inr (False, d)"
  using assms by (simp add: begin_ssd1306_def)

lemma malloc_allocated:
  assumes "native_size d" "malloc heap_ok junk (buffer_size d) = Some b"
  shows "allocated (d\<lparr>buffer := Some b\<rparr>)"
  using assms buffer_size_range [OF assms(1)]
  by (auto simp add: malloc_def allocated_def native_size_def buffer_size_def split: if_splits)

lemma begin_allocated:
  assumes "allocated da"
  shows "\<exists>d'. (case clearDisplay da of
             Inl e \<Rightarrow> Inl e
           | Inr d \<Rightarrow>
               (case (if 32 < sint (HEIGHT d) then
                        drawBitmap
                          (word_of_int ((sint (WIDTH d) - sint (bm_width splash1)) sdiv 2))
                          (word_of_int ((sint (HEIGHT d) - sint (bm_height splash1)) sdiv 2))
                          (bm_data splash1) (bm_width splash1) (bm_height splash1) 1 d
                      else
                        drawBitmap
                          (word_of_int ((sint (WIDTH d) - sint (bm_width splash2)) sdiv 2))
                          (word_of_int ((sint (HEIGHT d) - sint (bm_height splash2)) sdiv 2))
                          (bm_data splash2) (bm_width splash2) (bm_height splash2) 1 d) of
                  Inl e \<Rightarrow> Inl e
                | Inr d \<Rightarrow> Inr (True, init_sequence d))) = Inr (True, d') \<and> allocated d'"
proof -
  let ?db = "da\<lparr>buffer := Some (replicate (nat (buffer_size da)) 0)\<rparr>"
  have ns: "native_size da" using assms by (simp add: allocated_def)
  have c: "clearDisplay da = Inr ?db" using assms by (rule clearDisplay_allocated)
  have adb: "allocated ?db"
    using assms buffer_size_range [OF ns]
    by (simp add: allocated_def native_size_def buffer_size_def)
  obtain d1 where 1: "drawBitmap
        (word_of_int ((sint (WIDTH ?db) - sint (bm_width splash1)) sdiv 2))
        (word_of_int ((sint (HEIGHT ?db) - sint (bm_height splash1)) sdiv 2))
        (bm_data splash1) (bm_width splash1) (bm_height splash1) 1 ?db = Inr d1"
    and a1: "allocated d1"
    using drawBitmap_total [OF adb] by blast
  obtain d2 where 2: "drawBitmap
        (word_of_int ((sint (WIDTH ?db) - sint (bm_width splash2)) sdiv 2))
        (word_of_int ((sint (HEIGHT ?db) - sint (bm_height splash2)) sdiv 2))
        (bm_data splash2) (bm_width splash2) (bm_height splash2) 1 ?db = Inr d2"
    and a2: "allocated d2"
    using drawBitmap_total [OF adb] by blast
  show ?thesis
  proof (cases "32 < sint (HEIGHT ?db)")
    case True
    then show ?thesis
      unfolding c using 1 a1 by (simp add: allocated_init_sequence)
  next
    case False
    then show ?thesis
      unfolding c using 2 a2 by (simp add: allocated_init_sequence)
  qed
qed

lemma begin_success:
  assumes "native_size d"
    and "buffer d = None \<and> malloc heap_ok junk (buffer_size d) \<noteq> None \<or> allocated d"
  shows "\<exists>d'. begin_ssd1306 heap_ok junk splash1 splash2 d = Inr (True, d') \<and> allocated d'"
proof -
  define da where "da = (if buffer d = None
     then d\<lparr>buffer := malloc heap_ok junk (buffer_size d)\<rparr> else d)"
  have ada: "allocated da"
    using assms malloc_allocated [OF assms(1)]
    by (auto simp add: da_def allocated_def split: option.splits)
  then have nn: "buffer da \<noteq> None" by (auto simp add: allocated_def split: option.splits)
  show ?thesis
    unfolding begin_ssd1306_def da_def [symmetric] Let_def
    using nn begin_allocated [OF ada, of splash1 splash2] by simp
qed

section \<open>Claims about initialisation and dimming\<close>

text \<open>
  C5. When the buffer pointer is null and \<open>malloc\<close> returns null, \<open>begin\<close> returns
  false and leaves the object as it was: no link is created and nothing is written to
  the bus. When the object has the native size the constructor gives it and either the
  buffer pointer is null and \<open>malloc\<close> returns a block, or the buffer is already
  allocated, \<open>begin\<close> returns true (and the buffer is allocated afterwards).
\<close>

theorem begin_allocation:
  "(buffer d = None \<and> malloc heap_ok junk (buffer_size d) = None \<longrightarrow>
      (\<exists>d'. begin_ssd1306 heap_ok junk splash1 splash2 d = Inr (False, d') \<and>
            d' = d \<and> bus d' = bus d \<and> links d' = links d)) \<and>
   (native_size d \<and> buffer d = None \<and> malloc heap_ok junk (buffer_size d) \<noteq> None \<longrightarrow>
      (\<exists>d'. begin_ssd1306 heap_ok junk splash1 splash2 d = Inr (True, d') \<and> allocated d')) \<and>
   (allocated d \<longrightarrow>
      (\<exists>d'. begin_ssd1306 heap_ok junk splash1 splash2 d = Inr (True, d') \<and> allocated d'))"
proof (intro conjI impI)
  assume "buffer d = None \<and> malloc heap_ok junk (buffer_size d) = None"
  then show "\<exists>d'. begin_ssd1306 heap_ok junk splash1 splash2 d = Inr (False, d') \<and>
            d' = d \<and> bus d' = bus d \<and> links d' = links d"
    by (simp add: begin_alloc_fail)
next
  assume "native_size d \<and> buffer d = None \<and> malloc heap_ok junk (buffer_size d) \<noteq> None"
  then show "\<exists>d'. begin_ssd1306 heap_ok junk splash1 splash2 d = Inr (True, d') \<and> allocated d'"
    by (intro begin_success) simp_all
next
  assume a: "allocated d"
  then have "native_size d" by (simp add: allocated_def)
  then show "\<exists>d'. begin_ssd1306 heap_ok junk splash1 splash2 d = Inr (True, d') \<and> allocated d'"
    using a by (intro begin_success) simp_all
qed

theorem begin_allocation_witness:
  "buffer (Adafruit_SSD1306 128 64 0 0 (\<lambda>n. True)) = None \<and>
   malloc False (\<lambda>n. 0) (buffer_size (Adafruit_SSD1306 128 64 0 0 (\<lambda>n. True))) = None \<and>
   begin_ssd1306 False (\<lambda>n. 0) small_splash small_splash (Adafruit_SSD1306 128 64 0 0 (\<lambda>n. True))
     = Inr (False, Adafruit_SSD1306 128 64 0 0 (\<lambda>n. True)) \<and>
   native_size (Adafruit_SSD1306 128 64 0 0 (\<lambda>n. True)) \<and>
   malloc True (\<lambda>n. 0) (buffer_size (Adafruit_SSD1306 128 64 0 0 (\<lambda>n. True))) \<noteq> None \<and>
   (\<exists>d'. begin_ssd1306 True (\<lambda>n. 0) small_splash small_splash
            (Adafruit_SSD1306 128 64 0 0 (\<lambda>n. True)) = Inr (True, d')) \<and>
   allocated panel_128x64 \<and>
   (\<exists>d'. begin_ssd1306 False (\<lambda>n. 0) small_splash small_splash panel_128x64 = Inr (True, d'))"
proof -
  let ?d = "Adafruit_SSD1306 128 64 0 0 (\<lambda>n. True)"
  have n: "buffer ?d = None" by (simp add: Adafruit_SSD1306_def)
  have s: "native_size ?d" by (rule constructor_native_size)
  have z: "0 \<le> buffer_size ?d" using buffer_size_range [OF s] by simp
  have f: "malloc False (\<lambda>n. 0) (buffer_size ?d) = None" by (simp add: malloc_def)
  have t: "malloc True (\<lambda>n. 0) (buffer_size ?d) \<noteq> None" using z by (simp add: malloc_def)
  have a: "allocated panel_128x64" by (rule panel_128x64_allocated)
  show ?thesis
    using begin_allocation [of ?d False "\<lambda>n. 0" small_splash small_splash]
      begin_allocation [of ?d True "\<lambda>n. 0" small_splash small_splash]
      begin_allocation [of panel_128x64 False "\<lambda>n. 0" small_splash small_splash]
      n s f t a
    by auto
qed

text \<open>
  C7. When the I2C driver hands out a link for each of its two
  transactions, \<open>dim(true)\<close> sends the set-contrast command and then the byte 0, and
  \<open>dim(false)\<close> sends the set-contrast command and then the stored contrast; when it
  hands out neither link, nothing is sent. In every case each of the two transactions is
  sent exactly when its own link was handed out: with only the first link the bus gets
  the set-contrast command alone, with only the second the payload byte alone. \<open>dim\<close>
  consumes two links and never changes the stored contrast. The
  stored contrast is the one a successful \<open>begin\<close> chose for the native panel size,
  which is \<open>0xCF\<close> for 128 by 64.
\<close>

theorem dim_contrast:
  "(links d 0 \<and> links d 1 \<longrightarrow>
      bus (dim True d) =
        bus d @ [[SSD1306_CMD_STREAM, SSD1306_SETCONTRAST], [SSD1306_CMD_STREAM, 0]] \<and>
      bus (dim False d) =
        bus d @ [[SSD1306_CMD_STREAM, SSD1306_SETCONTRAST], [SSD1306_CMD_STREAM, contrast d]]) \<and>
   (\<not> links d 0 \<and> \<not> links d 1 \<longrightarrow> bus (dim dm d) = bus d) \<and>
   bus (dim dm d) =
     bus d @
     (if links d 0 then [[SSD1306_CMD_STREAM, SSD1306_SETCONTRAST]] else []) @
     (if links d 1 then [[SSD1306_CMD_STREAM, if dm then 0 else contrast d]] else []) \<and>
   links (dim dm d) = (\<lambda>n. links d (n + 2)) \<and>
   contrast (dim dm d) = contrast d \<and>
   (begin_ssd1306 heap_ok junk splash1 splash2 d0 = Inr (True, d) \<longrightarrow>
      contrast d = contrast_for (sint (WIDTH d0)) (sint (HEIGHT d0))) \<and>
   contrast_for 128 64 = 0xCF"
proof (intro conjI impI)
  assume "links d 0 \<and> links d 1"
  then show "bus (dim True d) =
      bus d @ [[SSD1306_CMD_STREAM, SSD1306_SETCONTRAST], [SSD1306_CMD_STREAM, 0]]"
    and "bus (dim False d) =
      bus d @ [[SSD1306_CMD_STREAM, SSD1306_SETCONTRAST], [SSD1306_CMD_STREAM, contrast d]]"
    by (simp_all add: dim_def Let_def)
next
  assume "\<not> links d 0 \<and> \<not> links d 1"
  then show "bus (dim dm d) = bus d" by (simp add: dim_def Let_def)
next
  show "bus (dim dm d) =
     bus d @
     (if links d 0 then [[SSD1306_CMD_STREAM, SSD1306_SETCONTRAST]] else []) @
     (if links d 1 then [[SSD1306_CMD_STREAM, if dm then 0 else contrast d]] else [])"
    by (simp add: dim_def Let_def)
next
  show "links (dim dm d) = (\<lambda>n. links d (n + 2))" by (simp add: dim_def Let_def)
next
  show "contrast (dim dm d) = contrast d" by (simp add: dim_def Let_def)
next
  assume "begin_ssd1306 heap_ok junk splash1 splash2 d0 = Inr (True, d)"
  then obtain b where "d = init_sequence (d0\<lparr>buffer := b\<rparr>)"
    using begin_true_shape by blast
  then show "contrast d = contrast_for (sint (WIDTH d0)) (sint (HEIGHT d0))"
    by (simp add: init_sequence_fields)
next
  show "contrast_for 128 64 = 0xCF" by (simp add: contrast_for_def)
qed

theorem dim_contrast_counterexample:
  "bus (dim True (panel_128x64\<lparr>links := \<lambda>n. False\<rparr>)) = [] \<and>
   bus (dim True (panel_128x64\<lparr>links := \<lambda>n. False\<rparr>)) \<noteq>
     bus (panel_128x64\<lparr>links := \<lambda>n. False\<rparr>) @
       [[SSD1306_CMD_STREAM, SSD1306_SETCONTRAST], [SSD1306_CMD_STREAM, 0]]"
  by (simp add: dim_def Let_def panel_128x64_fields)

theorem dim_contrast_witness:
  "\<exists>d. begin_ssd1306 True (\<lambda>n. 0) small_splash small_splash
          (Adafruit_SSD1306 128 64 0 0 (\<lambda>n. True)) = Inr (True, d) \<and>
       links d 0 \<and> links d 1 \<and>
       bus (dim True d) =
         bus d @ [[SSD1306_CMD_STREAM, SSD1306_SETCONTRAST], [SSD1306_CMD_STREAM, 0]] \<and>
       bus (dim False d) =
         bus d @ [[SSD1306_CMD_STREAM, SSD1306_SETCONTRAST], [SSD1306_CMD_STREAM, 0xCF]]"
proof -
  let ?d0 = "Adafruit_SSD1306 128 64 0 0 (\<lambda>n. True)"
  have s: "native_size ?d0" by (rule constructor_native_size)
  have z: "0 \<le> buffer_size ?d0" using buffer_size_range [OF s] by simp
  have n: "buffer ?d0 = None \<and> malloc True (\<lambda>n. 0) (buffer_size ?d0) \<noteq> None \<or> allocated ?d0"
    using z by (simp add: malloc_def Adafruit_SSD1306_def)
  obtain d where b: "begin_ssd1306 True (\<lambda>n. 0) small_splash small_splash ?d0 = Inr (True, d)"
    using begin_success [OF s n] by blast
  obtain c where d: "d = init_sequence (?d0\<lparr>buffer := c\<rparr>)"
    using begin_true_shape [OF b] by blast
  have l: "links d 0" "links d 1"
    unfolding d by (simp_all add: init_sequence_fields Adafruit_SSD1306_def)
  have w: "sint (WIDTH ?d0) = 128" "sint (HEIGHT ?d0) = 64"
    by (simp_all add: Adafruit_SSD1306_def)
  from dim_contrast [of d True True "\<lambda>n. 0" small_splash small_splash ?d0] b l w
  show ?thesis by (intro exI [of _ d]) simp
qed

end
